theory Spec2Isabelle
  imports Complex_Main "HOL-Library.Multiset"
begin

section \<open>Floating-point values\<close>

text \<open>
  The locator computes with C++ \<^verbatim>\<open>float\<close> and \<^verbatim>\<open>double\<close>. A value is modelled as
  either a finite number, carried as a real, or one of the IEEE 754 special values: the
  two infinities and NaN. Arithmetic and comparison on the special values follow
  IEEE 754, so that a division by zero and a missing (NaN) point-cloud entry are values
  of the model and not errors. The sign of a zero is not modelled: every zero is taken
  as \<open>+0\<close>, which is what a conversion from \<^verbatim>\<open>int\<close> and a difference of equal values
  produce.

  The operators \<open>+\<close>, \<open>-\<close>, \<open>*\<close> and \<open>/\<close> defined here are exact on finite values. They
  stand for the double-precision computations of the source (the line intersection, the
  margins around the centroid, the squared distances to the grid), whose rounding to
  double precision is not modelled; there a decimal constant, such as \<open>0.05715\<close>, is the
  real number it denotes. The single-precision computations of the source (the sum of
  the duplicate scan and the accumulation of the score) are modelled with their
  rounding, by the operations of the next section.
\<close>

datatype fl = Fin real | PInf | NInf | NaN

instantiation fl :: "{plus, uminus, minus, times, inverse, abs, ord}"
begin

fun plus_fl :: "fl \<Rightarrow> fl \<Rightarrow> fl" where
  "plus_fl (Fin a) (Fin b) = Fin (a + b)"
| "plus_fl NaN _ = NaN"
| "plus_fl _ NaN = NaN"
| "plus_fl PInf NInf = NaN"
| "plus_fl NInf PInf = NaN"
| "plus_fl PInf _ = PInf"
| "plus_fl _ PInf = PInf"
| "plus_fl NInf _ = NInf"
| "plus_fl _ NInf = NInf"

fun uminus_fl :: "fl \<Rightarrow> fl" where
  "uminus_fl (Fin a) = Fin (- a)"
| "uminus_fl PInf = NInf"
| "uminus_fl NInf = PInf"
| "uminus_fl NaN = NaN"

definition minus_fl :: "fl \<Rightarrow> fl \<Rightarrow> fl" where
  "minus_fl u v = u + (- v)"

fun times_fl :: "fl \<Rightarrow> fl \<Rightarrow> fl" where
  "times_fl (Fin a) (Fin b) = Fin (a * b)"
| "times_fl NaN _ = NaN"
| "times_fl _ NaN = NaN"
| "times_fl PInf (Fin b) = (if b = 0 then NaN else if 0 < b then PInf else NInf)"
| "times_fl NInf (Fin b) = (if b = 0 then NaN else if 0 < b then NInf else PInf)"
| "times_fl (Fin a) PInf = (if a = 0 then NaN else if 0 < a then PInf else NInf)"
| "times_fl (Fin a) NInf = (if a = 0 then NaN else if 0 < a then NInf else PInf)"
| "times_fl PInf PInf = PInf"
| "times_fl PInf NInf = NInf"
| "times_fl NInf PInf = NInf"
| "times_fl NInf NInf = PInf"

fun divide_fl :: "fl \<Rightarrow> fl \<Rightarrow> fl" where
  "divide_fl (Fin a) (Fin b) =
     (if b \<noteq> 0 then Fin (a / b)
      else if a = 0 then NaN else if 0 < a then PInf else NInf)"
| "divide_fl NaN _ = NaN"
| "divide_fl _ NaN = NaN"
| "divide_fl (Fin a) PInf = Fin 0"
| "divide_fl (Fin a) NInf = Fin 0"
| "divide_fl PInf (Fin b) = (if 0 \<le> b then PInf else NInf)"
| "divide_fl NInf (Fin b) = (if 0 \<le> b then NInf else PInf)"
| "divide_fl PInf PInf = NaN"
| "divide_fl PInf NInf = NaN"
| "divide_fl NInf PInf = NaN"
| "divide_fl NInf NInf = NaN"

definition inverse_fl :: "fl \<Rightarrow> fl" where
  "inverse_fl u = divide (Fin 1) u"

fun abs_fl :: "fl \<Rightarrow> fl" where
  "abs_fl (Fin a) = Fin \<bar>a\<bar>"
| "abs_fl PInf = PInf"
| "abs_fl NInf = PInf"
| "abs_fl NaN = NaN"

fun less_fl :: "fl \<Rightarrow> fl \<Rightarrow> bool" where
  "less_fl (Fin a) (Fin b) = (a < b)"
| "less_fl NaN _ = False"
| "less_fl _ NaN = False"
| "less_fl _ NInf = False"
| "less_fl NInf _ = True"
| "less_fl PInf _ = False"
| "less_fl _ PInf = True"

definition less_eq_fl :: "fl \<Rightarrow> fl \<Rightarrow> bool" where
  "less_eq_fl u v = (u \<noteq> NaN \<and> v \<noteq> NaN \<and> (u < v \<or> u = v))"

instance ..

end

text \<open>The conversion \<^verbatim>\<open>(double) i\<close> of an \<^verbatim>\<open>int\<close>.\<close>

definition dbl :: "int \<Rightarrow> fl" where
  "dbl i = Fin (of_int i)"

text \<open>
  The conversion \<^verbatim>\<open>(int) x\<close> of a \<^verbatim>\<open>double\<close> truncates toward zero. The source
  applies it only below the bounds test, where \<open>x\<close> is finite; the value given here for
  an infinity or NaN is never read.
\<close>

fun to_int :: "fl \<Rightarrow> int" where
  "to_int (Fin a) = (if 0 \<le> a then \<lfloor>a\<rfloor> else \<lceil>a\<rceil>)"
| "to_int _ = 0"

section \<open>Rounding to single and to double precision\<close>

text \<open>Rounding of a real to the nearest integer, a tie going to the even one.\<close>

definition rne :: "real \<Rightarrow> int" where
  "rne q =
     (let f = \<lfloor>q\<rfloor>; d = q - of_int f
      in if d < 1 / 2 then f else if 1 / 2 < d then f + 1
         else if even f then f else f + 1)"

text \<open>
  The exponent of \<open>x\<close> in a binary format: the greatest \<open>e'\<close> with \<open>2 ^ e' \<le> \<bar>x\<bar>\<close> among the
  \<open>n + 1\<close> exponents from \<open>e\<close> downwards, and the least of them, \<open>e - n\<close>, when there is
  none (\<open>x\<close> is zero or subnormal).
\<close>

fun expo_from :: "nat \<Rightarrow> int \<Rightarrow> real \<Rightarrow> int" where
  "expo_from 0 e x = e"
| "expo_from (Suc n) e x = (if 2 powi e \<le> \<bar>x\<bar> then e else expo_from n (e - 1) x)"

text \<open>
  Rounding to nearest, ties to even, in the binary format of precision \<open>p\<close> whose normal
  exponents run from \<open>emax - n\<close> to \<open>emax\<close>: \<open>x\<close> is rounded to a multiple of the unit in
  the last place of its exponent, and a result of magnitude \<open>2 ^ (emax + 1)\<close> or more is
  an infinity. Below the least normal exponent the unit stays that of the least
  exponent (subnormal numbers).
\<close>

definition rnd :: "nat \<Rightarrow> nat \<Rightarrow> int \<Rightarrow> real \<Rightarrow> fl" where
  "rnd p n emax x =
     (let u = 2 powi (expo_from n emax x - (int p - 1));
          y = of_int (rne (x / u)) * u
      in if 2 powi (emax + 1) \<le> y then PInf
         else if y \<le> - (2 powi (emax + 1)) then NInf else Fin y)"

text \<open>IEEE 754 binary32 (\<^verbatim>\<open>float\<close>) and binary64 (\<^verbatim>\<open>double\<close>).\<close>

definition r32 :: "real \<Rightarrow> fl" where
  "r32 x = rnd 24 253 127 x"

definition r64 :: "real \<Rightarrow> fl" where
  "r64 x = rnd 53 2045 1023 x"

text \<open>
  Addition and subtraction of two \<^verbatim>\<open>float\<close> values: the exact result of two finite
  operands is rounded to single precision (each operation of a \<^verbatim>\<open>float\<close> expression
  is carried out in single precision); with a special operand the result is that of
  the exact operator.
\<close>

definition add32 :: "fl \<Rightarrow> fl \<Rightarrow> fl" where
  "add32 u v = (case (u, v) of (Fin a, Fin b) \<Rightarrow> r32 (a + b) | _ \<Rightarrow> u + v)"

definition sub32 :: "fl \<Rightarrow> fl \<Rightarrow> fl" where
  "sub32 u v = (case (u, v) of (Fin a, Fin b) \<Rightarrow> r32 (a - b) | _ \<Rightarrow> u - v)"

text \<open>The conversion of a \<^verbatim>\<open>double\<close> value to \<^verbatim>\<open>float\<close>.\<close>

definition to_float :: "fl \<Rightarrow> fl" where
  "to_float u = (case u of Fin a \<Rightarrow> r32 a | _ \<Rightarrow> u)"

text \<open>A value that a \<^verbatim>\<open>float\<close> variable can hold: rounding leaves it as it is.\<close>

definition float32 :: "fl \<Rightarrow> bool" where
  "float32 u = (case u of Fin a \<Rightarrow> r32 a = Fin a | _ \<Rightarrow> True)"

section \<open>Line intersection\<close>

text \<open>
  A \<^verbatim>\<open>cv::Vec4i\<close> holds the end points \<open>(l0, l1)\<close> and \<open>(l2, l3)\<close> of a segment; a
  \<^verbatim>\<open>cv::Point\<close> is a pair of \<^verbatim>\<open>int\<close> pixel coordinates. Pixel coordinates are far from
  the limits of \<^verbatim>\<open>int\<close> and are modelled as unbounded integers.
\<close>

record vec4i =
  l0 :: int
  l1 :: int
  l2 :: int
  l3 :: int

type_synonym cv_point = "int \<times> int"

definition findIntersection :: "vec4i \<Rightarrow> vec4i \<Rightarrow> cv_point" where
  "findIntersection a b =
     (let ma = dbl (l3 a - l1 a) / dbl (l2 a - l0 a);
          mb = dbl (l3 b - l1 b) / dbl (l2 b - l0 b);
          ba = dbl (l1 a) - ma * dbl (l0 a);
          bb = dbl (l1 b) - mb * dbl (l0 b);
          x = (bb - ba) / (ma - mb);
          y = ma * x + ba
      in if Fin 0 \<le> x \<and> x < Fin 640 \<and> Fin 0 \<le> y \<and> y < Fin 480
         then (to_int x, to_int y) else (-1, -1))"

text \<open>
  The divisors of the three divisions of \<open>findIntersection\<close>, in the order in which the
  source evaluates them: the horizontal extent of \<open>a\<close>, that of \<open>b\<close>, and the difference
  of the two slopes.
\<close>

definition findIntersection_divisors :: "vec4i \<Rightarrow> vec4i \<Rightarrow> fl list" where
  "findIntersection_divisors a b =
     (let ma = dbl (l3 a - l1 a) / dbl (l2 a - l0 a);
          mb = dbl (l3 b - l1 b) / dbl (l2 b - l0 b)
      in [dbl (l2 a - l0 a), dbl (l2 b - l0 b), ma - mb])"

section \<open>Points, the point cloud and the library\<close>

text \<open>
  A \<^verbatim>\<open>pcl::PointXYZ\<close> has three \<^verbatim>\<open>float\<close> coordinates. The organised cloud of the
  depth camera is read by \<^verbatim>\<open>cloud(column, row)\<close>; the colour of the entry is dropped when
  the point is stored, so the cloud is modelled as giving the coordinates only. An entry
  for which the sensor has no depth carries NaN coordinates.
\<close>

record point =
  pt_x :: fl
  pt_y :: fl
  pt_z :: fl

type_synonym cloud = "int \<Rightarrow> int \<Rightarrow> point"

text \<open>
  The Point Cloud Library and Eigen are not part of the repository. The functions the
  callback calls are parameters of the model, for an arbitrary type \<open>'tf\<close> of 4x4
  matrices: the centroid (of which the callback reads the components 0 and 1), the
  rigid transformation estimated from a source and a target cloud, the transformation
  of a point (\<^verbatim>\<open>pcl::transformPointCloud\<close> transforms a cloud point by point), and the
  inverse of a matrix.
\<close>

record 'tf pcl =
  compute3DCentroid :: "point list \<Rightarrow> fl \<times> fl"
  estimateRigidTransformationSVD :: "point list \<Rightarrow> point list \<Rightarrow> 'tf"
  transformPoint :: "'tf \<Rightarrow> point \<Rightarrow> point"
  matrix_inverse :: "'tf \<Rightarrow> 'tf"

definition transformPointCloud :: "'tf pcl \<Rightarrow> point list \<Rightarrow> 'tf \<Rightarrow> point list" where
  "transformPointCloud L data t = map (transformPoint L t) data"

section \<open>Splitting the lines\<close>

text \<open>One pass of the loop over \<open>lines\<close>: the index goes to exactly one of the two vectors.\<close>

definition split_step :: "vec4i list \<Rightarrow> nat \<Rightarrow> nat list \<times> nat list \<Rightarrow> nat list \<times> nat list" where
  "split_step lines i hv =
     (let l = lines ! i; dx = l2 l - l0 l; dy = l3 l - l1 l
      in if \<bar>dx\<bar> > \<bar>dy\<bar> then (fst hv @ [i], snd hv) else (fst hv, snd hv @ [i]))"

definition split_lines :: "vec4i list \<Rightarrow> nat list \<times> nat list" where
  "split_lines lines = fold (split_step lines) [0..<length lines] ([], [])"

section \<open>Intersections and the board points\<close>

text \<open>
  The sum of the duplicate scan, for a retained point \<open>tp\<close> and the new point \<open>cp\<close>: three
  \<^verbatim>\<open>float\<close> differences, their absolute values and two \<^verbatim>\<open>float\<close> additions. The
  test converts the sum to \<^verbatim>\<open>double\<close>, which changes nothing, and compares it with
  the \<^verbatim>\<open>double\<close> constant \<^verbatim>\<open>0.03\<close>.
\<close>

definition l1_sum32 :: "point \<Rightarrow> point \<Rightarrow> fl" where
  "l1_sum32 tp cp =
     add32 (add32 \<bar>sub32 (pt_x tp) (pt_x cp)\<bar> \<bar>sub32 (pt_y tp) (pt_y cp)\<bar>)
       \<bar>sub32 (pt_z tp) (pt_z cp)\<bar>"

definition near :: "point \<Rightarrow> point \<Rightarrow> bool" where
  "near tp cp = (l1_sum32 tp cp < r64 0.03)"

text \<open>The scan over \<open>data.points\<close> with its \<^verbatim>\<open>break\<close>: the value of \<^verbatim>\<open>include\<close> after it.\<close>

fun include_scan :: "point list \<Rightarrow> point \<Rightarrow> bool" where
  "include_scan [] cp = True"
| "include_scan (tp # rest) cp = (if near tp cp then False else include_scan rest cp)"

definition push_unless_near :: "point list \<Rightarrow> point \<Rightarrow> point list" where
  "push_unless_near data cp = (if include_scan data cp then data @ [cp] else data)"

text \<open>The body of the inner loop, for the point \<open>p\<close> that \<open>findIntersection\<close> returned.\<close>

definition add_intersection :: "cloud \<Rightarrow> point list \<Rightarrow> cv_point \<Rightarrow> point list" where
  "add_intersection cloud data p =
     (if fst p > 0 \<and> snd p > 0 then push_unless_near data (cloud (fst p) (snd p)) else data)"

definition get_intersections :: "cloud \<Rightarrow> vec4i list \<Rightarrow> nat list \<Rightarrow> nat list \<Rightarrow> point list" where
  "get_intersections cloud lines h_indexes v_indexes =
     fold (\<lambda>i. fold (\<lambda>j data.
             add_intersection cloud data (findIntersection (lines ! i) (lines ! j)))
           v_indexes)
       h_indexes []"

section \<open>Corner candidates\<close>

definition candidate_step ::
  "fl \<times> fl \<Rightarrow> point list \<Rightarrow> nat \<Rightarrow> nat list \<times> nat list \<times> nat list
     \<Rightarrow> nat list \<times> nat list \<times> nat list" where
  "candidate_step centroid data i c =
     (case c of (a1, a8, h1) \<Rightarrow>
        let p = data ! i in
        if pt_x p < fst centroid - Fin 0.05 \<and> pt_y p > snd centroid + Fin 0.05
          then (a1 @ [i], a8, h1)
        else if pt_x p < fst centroid - Fin 0.05 \<and> pt_y p < snd centroid - Fin 0.05
          then (a1, a8 @ [i], h1)
        else if pt_x p > fst centroid + Fin 0.05 \<and> pt_y p > snd centroid + Fin 0.05
          then (a1, a8, h1 @ [i])
        else (a1, a8, h1))"

definition corner_candidates ::
  "fl \<times> fl \<Rightarrow> point list \<Rightarrow> nat list \<times> nat list \<times> nat list" where
  "corner_candidates centroid data =
     fold (candidate_step centroid data) [0..<length data] ([], [], [])"

section \<open>Evaluating the candidates\<close>

text \<open>The ideal positions of a1, a8 and h1.\<close>

definition board :: "point list" where
  "board =
     [\<lparr>pt_x = Fin 0.05715, pt_y = Fin 0.05715, pt_z = Fin 0\<rparr>,
      \<lparr>pt_x = Fin 0.05715, pt_y = Fin (0.05715 * 7), pt_z = Fin 0\<rparr>,
      \<lparr>pt_x = Fin (0.05715 * 7), pt_y = Fin 0.05715, pt_z = Fin 0\<rparr>]"

text \<open>The body of the two loops over the grid, updating \<open>e\<close> for the grid point \<open>(gx, gy)\<close>.\<close>

definition grid_step :: "point \<Rightarrow> int \<Rightarrow> int \<Rightarrow> fl \<Rightarrow> fl" where
  "grid_step pt gx gy e =
     (let iter = (Fin 0.05715 * dbl gx - pt_x pt) * (Fin 0.05715 * dbl gx - pt_x pt)
               + (Fin 0.05715 * dbl gy - pt_y pt) * (Fin 0.05715 * dbl gy - pt_y pt)
      in if iter < e then iter else e)"

definition point_error :: "point \<Rightarrow> fl" where
  "point_error pt = fold (\<lambda>gx. fold (\<lambda>gy. grid_step pt gx gy) [1..7]) [1..7] (Fin 1000)"

text \<open>
  The accumulation \<^verbatim>\<open>error += e\<close> in the \<^verbatim>\<open>float\<close> variable \<open>error\<close>. The contribution
  \<open>e\<close> is itself a \<^verbatim>\<open>float\<close>: the source converts every squared distance to \<^verbatim>\<open>float\<close>
  before it compares it with \<open>e\<close>, and the least of the converted distances is the
  converted least distance, rounding being monotone.
\<close>

definition fit_error :: "point list \<Rightarrow> fl" where
  "fit_error data_transformed =
     fold (\<lambda>pt error. add32 error (to_float (point_error pt))) data_transformed (Fin 0)"

text \<open>The score of a transform \<open>t\<close> over the board points \<open>data\<close>.\<close>

definition fit_score :: "'tf pcl \<Rightarrow> 'tf \<Rightarrow> point list \<Rightarrow> fl" where
  "fit_score L t data = fit_error (transformPointCloud L data t)"

definition candidate_transform :: "'tf pcl \<Rightarrow> point list \<Rightarrow> nat \<times> nat \<times> nat \<Rightarrow> 'tf" where
  "candidate_transform L data ijk =
     (case ijk of (i, j, k) \<Rightarrow>
        estimateRigidTransformationSVD L [data ! i, data ! j, data ! k] board)"

text \<open>
  The body of the innermost loop: the state is \<open>(best_score, best_transform)\<close>.
\<close>

definition evaluate_triple ::
  "'tf pcl \<Rightarrow> point list \<Rightarrow> nat \<times> nat \<times> nat \<Rightarrow> fl \<times> 'tf \<Rightarrow> fl \<times> 'tf" where
  "evaluate_triple L data ijk best =
     (let t = candidate_transform L data ijk;
          error = fit_score L t data
      in if fst best < Fin 0 \<or> error < fst best then (error, t) else best)"

text \<open>
  The three nested loops. \<open>best_score\<close> starts at \<open>-1\<close>; \<open>best_transform\<close> is declared
  without an initialiser, and \<open>t0\<close> stands for whatever the matrix holds then.
\<close>

definition evaluate_candidates ::
  "'tf pcl \<Rightarrow> point list \<Rightarrow> nat list \<Rightarrow> nat list \<Rightarrow> nat list \<Rightarrow> 'tf \<Rightarrow> fl \<times> 'tf" where
  "evaluate_candidates L data a1 a8 h1 t0 =
     fold (\<lambda>i. fold (\<lambda>j. fold (\<lambda>k. evaluate_triple L data (i, j, k)) h1) a8) a1
       (Fin (- 1), t0)"

section \<open>The callback\<close>

text \<open>
  The callback from the detected lines on (the image operations that produce \<open>lines\<close>
  are OpenCV's). Its result is the list of the transforms it hands to
  \<^verbatim>\<open>br_.sendTransform\<close>.
\<close>

definition cameraCallback :: "'tf pcl \<Rightarrow> 'tf \<Rightarrow> cloud \<Rightarrow> vec4i list \<Rightarrow> 'tf list" where
  "cameraCallback L t0 cloud lines =
     (let (h_indexes, v_indexes) = split_lines lines;
          data = get_intersections cloud lines h_indexes v_indexes;
          centroid = compute3DCentroid L data;
          (a1_candidates, a8_candidates, h1_candidates) = corner_candidates centroid data;
          (best_score, best_transform) =
             evaluate_candidates L data a1_candidates a8_candidates h1_candidates t0
      in [matrix_inverse L best_transform])"

section \<open>Notions used in the statements\<close>

text \<open>A value that is not a finite number.\<close>

definition special :: "fl \<Rightarrow> bool" where
  "special u = (case u of Fin _ \<Rightarrow> False | _ \<Rightarrow> True)"

text \<open>
  The squared planar distance from \<open>(a, b)\<close> to the grid intersection \<open>g = (gx, gy)\<close>,
  in the reals.
\<close>

definition grid_dist :: "real \<Rightarrow> real \<Rightarrow> int \<times> int \<Rightarrow> real" where
  "grid_dist a b g =
     (0.05715 * real_of_int (fst g) - a)\<^sup>2 + (0.05715 * real_of_int (snd g) - b)\<^sup>2"

text \<open>The number of a finite value.\<close>

fun val :: "fl \<Rightarrow> real" where
  "val (Fin a) = a"
| "val _ = 0"

text \<open>
  A value that is a non-negative number or \<open>+\<infinity>\<close>, and one that is at least the least
  positive normal \<^verbatim>\<open>float\<close> or \<open>+\<infinity>\<close>.
\<close>

definition nonneg :: "fl \<Rightarrow> bool" where
  "nonneg u = (case u of Fin r \<Rightarrow> 0 \<le> r | PInf \<Rightarrow> True | _ \<Rightarrow> False)"

definition normal_pos :: "fl \<Rightarrow> bool" where
  "normal_pos u = (case u of Fin r \<Rightarrow> 2 powi (- 126) \<le> r | PInf \<Rightarrow> True | _ \<Rightarrow> False)"

text \<open>A point with a missing coordinate, as the cloud marks an entry without depth.\<close>

definition missing :: "point \<Rightarrow> bool" where
  "missing p = (pt_x p = NaN \<or> pt_y p = NaN \<or> pt_z p = NaN)"

text \<open>The exact L1 distance of two finite points, in the reals.\<close>

definition l1_distance :: "point \<Rightarrow> point \<Rightarrow> real" where
  "l1_distance tp cp =
     \<bar>val (pt_x tp) - val (pt_x cp)\<bar> + \<bar>val (pt_y tp) - val (pt_y cp)\<bar>
       + \<bar>val (pt_z tp) - val (pt_z cp)\<bar>"

text \<open>
  The 7x7 interior intersections of the ideal board lie in the plane \<open>z = 0\<close> of the
  board frame, as the three points of \<open>board\<close> do. \<open>grid_point q\<close> says that \<open>q\<close> is
  one of them; \<open>planar_grid_point q\<close> says so of the x and y coordinates of \<open>q\<close> only.
\<close>

definition planar_grid_point :: "point \<Rightarrow> bool" where
  "planar_grid_point q =
     list_ex (\<lambda>gx. list_ex (\<lambda>gy.
         pt_x q = Fin (0.05715 * real_of_int gx) \<and> pt_y q = Fin (0.05715 * real_of_int gy))
       [1..7]) [1..7]"

definition grid_point :: "point \<Rightarrow> bool" where
  "grid_point q = (planar_grid_point q \<and> pt_z q = Fin 0)"

text \<open>The candidate triples in the order in which the three loops visit them.\<close>

definition triples :: "nat list \<Rightarrow> nat list \<Rightarrow> nat list \<Rightarrow> (nat \<times> nat \<times> nat) list" where
  "triples a1 a8 h1 =
     concat (map (\<lambda>i. concat (map (\<lambda>j. map (\<lambda>k. (i, j, k)) h1) a8)) a1)"

text \<open>The score of the transform estimated from a candidate triple.\<close>

definition triple_score :: "'tf pcl \<Rightarrow> point list \<Rightarrow> nat \<times> nat \<times> nat \<Rightarrow> fl" where
  "triple_score L data ijk = fit_score L (candidate_transform L data ijk) data"

text \<open>
  An instance of the library for the examples: a transform is a translation in the
  plane, estimated from the first point of the source and the first of the target, and
  the centroid is a fixed point.
\<close>

definition translation_pcl :: "(fl \<times> fl) pcl" where
  "translation_pcl =
     \<lparr>compute3DCentroid = (\<lambda>data. (Fin 0, Fin 0)),
      estimateRigidTransformationSVD =
        (\<lambda>src tgt. (pt_x (hd tgt) - pt_x (hd src), pt_y (hd tgt) - pt_y (hd src))),
      transformPoint = (\<lambda>t p. p\<lparr>pt_x := pt_x p + fst t, pt_y := pt_y p + snd t\<rparr>),
      matrix_inverse = (\<lambda>t. (- fst t, - snd t))\<rparr>"

section \<open>Degenerate line pairs\<close>

lemma special_simps [simp]:
  "special (Fin a) = False" "special PInf" "special NInf" "special NaN"
  by (simp_all add: special_def)

lemma x_nan_left:
  "special ma \<Longrightarrow> (bb - (Fin a1 - ma * Fin a0)) / (ma - mb) = NaN"
  by (cases ma; cases mb; cases bb) (auto simp: minus_fl_def)

lemma x_nan_right:
  "special mb \<Longrightarrow> ((Fin b1 - mb * Fin b0) - ba) / (Fin m - mb) = NaN"
  by (cases mb; cases ba) (auto simp: minus_fl_def)

lemma div_zero_special: "special (u / Fin 0)"
  by (cases u) auto

lemma special_out_of_bounds: "special u \<Longrightarrow> \<not> (Fin 0 \<le> u \<and> u < Fin 640)"
  by (cases u) (auto simp: less_eq_fl_def)

lemma int_div_zero_special: "special (dbl i / dbl 0)"
  by (simp add: dbl_def)

lemma findIntersection_special_x:
  assumes "special ((dbl (l1 b) - dbl (l3 b - l1 b) / dbl (l2 b - l0 b) * dbl (l0 b)
              - (dbl (l1 a) - dbl (l3 a - l1 a) / dbl (l2 a - l0 a) * dbl (l0 a)))
             / (dbl (l3 a - l1 a) / dbl (l2 a - l0 a) - dbl (l3 b - l1 b) / dbl (l2 b - l0 b)))"
  shows "findIntersection a b = (-1, -1)"
  using special_out_of_bounds[OF assms] by (auto simp: findIntersection_def Let_def)

text \<open>
  C2, as the source has it. \<open>findIntersection\<close> has no guard. When a line has zero
  horizontal extent, or the two slopes are equal, the divisions by zero are carried out:
  they give an infinity or NaN, \<open>x\<close> is then an infinity or NaN, the bounds test fails
  and the result is the sentinel \<open>(-1, -1)\<close>.
\<close>

theorem findIntersection_degenerate:
  assumes "l2 a = l0 a \<or> l2 b = l0 b \<or>
     real_of_int (l3 a - l1 a) / real_of_int (l2 a - l0 a) =
     real_of_int (l3 b - l1 b) / real_of_int (l2 b - l0 b)"
  shows "findIntersection a b = (-1, -1)"
proof (rule findIntersection_special_x)
  let ?ma = "dbl (l3 a - l1 a) / dbl (l2 a - l0 a)"
  let ?mb = "dbl (l3 b - l1 b) / dbl (l2 b - l0 b)"
  let ?x = "(dbl (l1 b) - ?mb * dbl (l0 b) - (dbl (l1 a) - ?ma * dbl (l0 a))) / (?ma - ?mb)"
  consider (A) "l2 a = l0 a" | (B) "l2 a \<noteq> l0 a" "l2 b = l0 b"
    | (C) "l2 a \<noteq> l0 a" "l2 b \<noteq> l0 b"
        "real_of_int (l3 a - l1 a) / real_of_int (l2 a - l0 a) =
         real_of_int (l3 b - l1 b) / real_of_int (l2 b - l0 b)"
    using assms by blast
  then show "special ?x"
  proof cases
    case A
    then have "special ?ma" using int_div_zero_special by simp
    then have "?x = NaN" unfolding dbl_def by (rule x_nan_left)
    then show ?thesis by simp
  next
    case B
    then have s: "special ?mb" using int_div_zero_special by simp
    from B obtain m where m: "?ma = Fin m" by (simp add: dbl_def)
    have "?x = NaN"
      unfolding m unfolding dbl_def using s unfolding dbl_def by (rule x_nan_right)
    then show ?thesis by simp
  next
    case C
    then have "?ma - ?mb = Fin 0" by (simp add: dbl_def minus_fl_def)
    then show ?thesis using div_zero_special by simp
  qed
qed

theorem findIntersection_degenerate_witness:
  "l2 \<lparr>l0 = 3, l1 = 0, l2 = 3, l3 = 100\<rparr> = l0 \<lparr>l0 = 3, l1 = 0, l2 = 3, l3 = 100\<rparr> \<and>
   findIntersection \<lparr>l0 = 0, l1 = 5, l2 = 200, l3 = 5\<rparr> \<lparr>l0 = 3, l1 = 0, l2 = 3, l3 = 100\<rparr>
     = (-1, -1)"
  using findIntersection_degenerate
    [of "\<lparr>l0 = 0, l1 = 5, l2 = 200, l3 = 5\<rparr>" "\<lparr>l0 = 3, l1 = 0, l2 = 3, l3 = 100\<rparr>"]
  by simp

text \<open>
  C2 as stated fails: for the horizontal segment from \<open>(0, 5)\<close> to \<open>(200, 5)\<close> and the
  vertical segment from \<open>(3, 0)\<close> to \<open>(3, 100)\<close>, the second division of
  \<open>findIntersection\<close> divides by zero, and the slope \<open>mb\<close> it computes is infinite.
\<close>

theorem findIntersection_divides_by_zero:
  "findIntersection_divisors
     \<lparr>l0 = 0, l1 = 5, l2 = 200, l3 = 5\<rparr> \<lparr>l0 = 3, l1 = 0, l2 = 3, l3 = 100\<rparr> ! 1 = Fin 0 \<and>
   dbl (100 - 0) / dbl (3 - 3) = PInf"
  by (simp add: findIntersection_divisors_def dbl_def Let_def)

section \<open>Properties of rounding\<close>

lemma rne_floor: "rne q = \<lfloor>q\<rfloor> \<or> rne q = \<lfloor>q\<rfloor> + 1"
  by (simp add: rne_def Let_def)

lemma rne_of_int [simp]: "rne (of_int n) = n"
  by (simp add: rne_def)

lemma rne_ge: "of_int n \<le> q \<Longrightarrow> n \<le> rne q"
  using rne_floor[of q] le_floor_iff[of n q] by linarith

lemma rne_le:
  assumes "q \<le> of_int n"
  shows "rne q \<le> n"
proof (cases "q = of_int \<lfloor>q\<rfloor>")
  case True
  then have "rne q = \<lfloor>q\<rfloor>" by (metis rne_of_int)
  moreover have "\<lfloor>q\<rfloor> \<le> n" using assms by (simp add: floor_le_iff)
  ultimately show ?thesis by simp
next
  case False
  then have "of_int \<lfloor>q\<rfloor> < q" using of_int_floor_le[of q] by linarith
  with assms have "of_int \<lfloor>q\<rfloor> < (of_int n :: real)" by linarith
  then have "\<lfloor>q\<rfloor> + 1 \<le> n" by simp
  then show ?thesis using rne_floor[of q] by linarith
qed

lemma two_powi_pos [simp]: "0 < (2::real) powi e"
  by (simp add: zero_less_power_int)

lemma two_powi_not_le_zero [simp]: "\<not> (2::real) powi e \<le> 0"
  using two_powi_pos[of e] by linarith

lemma two_powi_less: "e < e' \<Longrightarrow> (2::real) powi e < 2 powi e'"
  by (rule power_int_strict_increasing) simp_all

lemma two_powi_le: "e \<le> e' \<Longrightarrow> (2::real) powi e \<le> 2 powi e'"
  by (rule power_int_increasing) simp_all

lemma two_powi_less_imp: "(2::real) powi e < 2 powi e' \<Longrightarrow> e < e'"
  using two_powi_le[of e' e] by (cases "e < e'") auto

lemma two_powi_split: "(2::real) powi (a + b) = 2 powi a * 2 powi b"
  by (rule power_int_add) simp

subsection \<open>The exponent\<close>

lemma expo_from_range: "e - int n \<le> expo_from n e x \<and> expo_from n e x \<le> e"
  by (induction n e x rule: expo_from.induct) auto

lemma expo_from_eq:
  assumes "e - int n \<le> k" "k \<le> e" "2 powi k \<le> \<bar>x\<bar>" "\<bar>x\<bar> < 2 powi (k + 1) \<or> k = e"
  shows "expo_from n e x = k"
  using assms
proof (induction n e x rule: expo_from.induct)
  case (1 e x)
  then show ?case by simp
next
  case (2 n e x)
  show ?case
  proof (cases "2 powi e \<le> \<bar>x\<bar>")
    case True
    have "k = e"
    proof (rule ccontr)
      assume "k \<noteq> e"
      with "2.prems" have "k + 1 \<le> e" "\<bar>x\<bar> < 2 powi (k + 1)" by auto
      then have "\<bar>x\<bar> < 2 powi e" using two_powi_le[of "k + 1" e] by linarith
      with True show False by simp
    qed
    with True show ?thesis by simp
  next
    case False
    with "2.prems" have ne: "k \<noteq> e" by auto
    with "2.prems" have "expo_from n (e - 1) x = k"
      by (intro "2.IH" False) auto
    with False show ?thesis by simp
  qed
qed

lemma expo_from_small:
  assumes "\<bar>x\<bar> < 2 powi (e - int n)"
  shows "expo_from n e x = e - int n"
  using assms
proof (induction n e x rule: expo_from.induct)
  case (1 e x)
  then show ?case by simp
next
  case (2 n e x)
  have "2 powi (e - int (Suc n)) \<le> (2::real) powi e" by (rule two_powi_le) simp
  with "2.prems" have f: "\<not> 2 powi e \<le> \<bar>x\<bar>" by linarith
  from "2.prems" have "expo_from n (e - 1) x = e - 1 - int n"
    by (intro "2.IH" f) (simp add: algebra_simps)
  with f show ?case by simp
qed

lemma expo_from_lower:
  assumes "2 powi (e - int n) \<le> \<bar>x\<bar>"
  shows "2 powi (expo_from n e x) \<le> \<bar>x\<bar>"
  using assms
proof (induction n e x rule: expo_from.induct)
  case (1 e x)
  then show ?case by simp
next
  case (2 n e x)
  then show ?case by (cases "2 powi e \<le> \<bar>x\<bar>") (simp_all add: algebra_simps)
qed

lemma expo_from_upper:
  assumes "expo_from n e x < e"
  shows "\<bar>x\<bar> < 2 powi (expo_from n e x + 1)"
  using assms
proof (induction n e x rule: expo_from.induct)
  case (1 e x)
  then show ?case by simp
next
  case (2 n e x)
  show ?case
  proof (cases "2 powi e \<le> \<bar>x\<bar>")
    case True
    with "2.prems" show ?thesis by simp
  next
    case False
    show ?thesis
    proof (cases "expo_from n (e - 1) x < e - 1")
      case True
      with False "2.IH" show ?thesis by simp
    next
      case f: False
      with expo_from_range[of "e - 1" n x] have "expo_from n (e - 1) x = e - 1" by linarith
      with False show ?thesis by simp
    qed
  qed
qed

subsection \<open>The rounded value\<close>

text \<open>
  A finite result of rounding is an integer multiple of the unit of an exponent \<open>E\<close> of
  the format, of magnitude at most \<open>2 ^ (E + 1)\<close>.
\<close>

lemma rnd_Fin_shape:
  assumes "rnd p n emax x = Fin y"
  shows "\<exists>E m. emax - int n \<le> E \<and> E \<le> emax \<and>
           y = of_int m * 2 powi (E - (int p - 1)) \<and> \<bar>y\<bar> \<le> 2 powi (E + 1)"
proof -
  define E where "E = expo_from n emax x"
  define u :: real where "u = 2 powi (E - (int p - 1))"
  define m where "m = rne (x / u)"
  have u: "0 < u" by (simp add: u_def)
  have y: "y = of_int m * u"
    and le: "\<not> 2 powi (emax + 1) \<le> of_int m * u" "\<not> of_int m * u \<le> - (2 powi (emax + 1))"
    using assms unfolding rnd_def Let_def E_def[symmetric] u_def[symmetric] m_def[symmetric]
    by (auto split: if_splits)
  have range: "emax - int n \<le> E" "E \<le> emax"
    using expo_from_range[of emax n x] by (simp_all add: E_def)
  have "\<bar>y\<bar> \<le> 2 powi (E + 1)"
  proof (cases "E < emax")
    case True
    then have "\<bar>x\<bar> < 2 powi (E + 1)" unfolding E_def by (rule expo_from_upper)
    moreover have "2 powi (E + 1) = of_int (2 ^ p) * u"
    proof -
      have "(2::real) powi (E + 1) = 2 powi (int p + (E - (int p - 1)))" by (simp add: algebra_simps)
      also have "\<dots> = 2 powi (int p) * u" unfolding u_def by (rule two_powi_split)
      finally show ?thesis by simp
    qed
    ultimately have "x / u \<le> of_int (2 ^ p)" "of_int (- (2 ^ p)) \<le> x / u"
      using u by (simp_all add: field_simps abs_less_iff)
    then have "m \<le> 2 ^ p" "- (2 ^ p) \<le> m"
      unfolding m_def by (auto intro: rne_le rne_ge)
    then have "\<bar>of_int m :: real\<bar> \<le> of_int (2 ^ p)"
      by (metis abs_le_iff of_int_le_iff of_int_minus minus_le_iff)
    then have "\<bar>of_int m * u\<bar> \<le> of_int (2 ^ p) * u"
      using u by (simp add: abs_mult)
    with \<open>2 powi (E + 1) = of_int (2 ^ p) * u\<close> y show ?thesis by simp
  next
    case False
    with range have "E = emax" by simp
    with le y show ?thesis by (simp add: abs_le_iff)
  qed
  with range y show ?thesis unfolding u_def by blast
qed

text \<open>A finite result above \<open>2 ^ e\<close> in magnitude is a multiple of the unit of \<open>e\<close>.\<close>

lemma rnd_Fin_multiple:
  assumes "rnd p n emax x = Fin y" "2 powi e < \<bar>y\<bar>"
  shows "\<exists>m::int. y = of_int m * 2 powi (e - (int p - 1))"
proof -
  from rnd_Fin_shape[OF assms(1)] obtain E m where
    y: "y = of_int m * 2 powi (E - (int p - 1))" and b: "\<bar>y\<bar> \<le> 2 powi (E + 1)"
    by blast
  from assms(2) b have "(2::real) powi e < 2 powi (E + 1)" by linarith
  then have "e \<le> E" using two_powi_less_imp[of e "E + 1"] by simp
  have "(2::real) powi (E - (int p - 1)) = 2 powi ((E - e) + (e - (int p - 1)))"
    by (simp add: algebra_simps)
  also have "\<dots> = 2 powi (E - e) * 2 powi (e - (int p - 1))"
    by (rule two_powi_split)
  also have "(2::real) powi (E - e) = of_int (2 ^ nat (E - e))"
    using \<open>e \<le> E\<close> by (simp add: power_int_nonneg_exp)
  finally have "y = of_int (m * 2 ^ nat (E - e)) * 2 powi (e - (int p - 1))"
    using y by simp
  then show ?thesis by blast
qed

text \<open>Rounding does not change the sign, and keeps a normal number away from zero.\<close>

lemma rnd_lower:
  assumes "0 < p" "2 powi (emax - int n) \<le> x"
  shows "rnd p n emax x = PInf \<or> (\<exists>y. rnd p n emax x = Fin y \<and> 2 powi (emax - int n) \<le> y)"
proof -
  define E where "E = expo_from n emax x"
  define u :: real where "u = 2 powi (E - (int p - 1))"
  have u: "0 < u" by (simp add: u_def)
  have x: "0 < x" using assms(2) two_powi_pos[of "emax - int n"] by linarith
  then have xE: "2 powi E \<le> x"
    using expo_from_lower[of emax n x] assms(2) by (simp add: E_def)
  have Eu: "2 powi E = of_int (2 ^ (p - 1)) * u"
  proof -
    have "(2::real) powi E = 2 powi (int (p - 1) + (E - (int p - 1)))"
      using assms(1) by (simp add: algebra_simps of_nat_diff)
    also have "\<dots> = 2 powi (int (p - 1)) * u" unfolding u_def by (rule two_powi_split)
    finally show ?thesis by simp
  qed
  from xE Eu have "of_int (2 ^ (p - 1)) \<le> x / u" using u by (simp add: field_simps)
  then have "2 ^ (p - 1) \<le> rne (x / u)" by (rule rne_ge)
  then have "(of_int (2 ^ (p - 1)) :: real) \<le> of_int (rne (x / u))" by (simp only: of_int_le_iff)
  then have "of_int (2 ^ (p - 1)) * u \<le> of_int (rne (x / u)) * u"
    using u by (simp only: mult_le_cancel_right_pos)
  with Eu have big: "2 powi E \<le> of_int (rne (x / u)) * u" by simp
  have "2 powi (emax - int n) \<le> (2::real) powi E"
    using expo_from_range[of emax n x] by (intro two_powi_le) (simp add: E_def)
  with big have l: "2 powi (emax - int n) \<le> of_int (rne (x / u)) * u" by linarith
  then have "\<not> of_int (rne (x / u)) * u \<le> - (2 powi (emax + 1))"
    using two_powi_pos[of "emax - int n"] two_powi_pos[of "emax + 1"] by linarith
  with l show ?thesis
    unfolding rnd_def Let_def E_def[symmetric] u_def[symmetric] by auto
qed

lemma rnd_nonneg:
  assumes "0 \<le> x"
  shows "rnd p n emax x = PInf \<or> (\<exists>y. rnd p n emax x = Fin y \<and> 0 \<le> y)"
proof -
  define u :: real where "u = 2 powi (expo_from n emax x - (int p - 1))"
  have u: "0 < u" by (simp add: u_def)
  then have "of_int 0 \<le> x / u" using assms by simp
  then have "0 \<le> rne (x / u)" by (rule rne_ge)
  then have "0 \<le> of_int (rne (x / u)) * u" using u by simp
  moreover have "\<not> of_int (rne (x / u)) * u \<le> - (2 powi (emax + 1))"
    using calculation two_powi_pos[of "emax + 1"] by linarith
  ultimately show ?thesis
    unfolding rnd_def Let_def u_def[symmetric] by auto
qed

text \<open>Rounding a number whose exponent is known.\<close>

lemma rnd_eval:
  assumes "emax - int n \<le> k" "k \<le> emax" "2 powi k \<le> \<bar>x\<bar>" "\<bar>x\<bar> < 2 powi (k + 1)"
  shows "rnd p n emax x =
     (let u = 2 powi (k - (int p - 1)); y = of_int (rne (x / u)) * u
      in if 2 powi (emax + 1) \<le> y then PInf
         else if y \<le> - (2 powi (emax + 1)) then NInf else Fin y)"
  using expo_from_eq[of emax n k x] assms by (simp add: rnd_def)

lemma rnd_zero [simp]: "rnd p n emax 0 = Fin 0"
  by (simp add: rnd_def rne_def)

lemma r32_eval:
  assumes "- 126 \<le> k" "k \<le> 127" "2 powi k \<le> \<bar>x\<bar>" "\<bar>x\<bar> < 2 powi (k + 1)"
  shows "r32 x =
     (let u = 2 powi (k - 23); y = of_int (rne (x / u)) * u
      in if 2 powi 128 \<le> y then PInf else if y \<le> - (2 powi 128) then NInf else Fin y)"
proof -
  have "expo_from 253 127 x = k"
    by (rule expo_from_eq) (use assms in auto)
  then show ?thesis by (simp add: r32_def rnd_def cong del: if_weak_cong)
qed

lemma r32_zero [simp]: "r32 0 = Fin 0"
  by (simp add: r32_def)

section \<open>The error of a point and the score of a transform\<close>

lemma grid_step_Fin:
  assumes "pt_x pt = Fin a" "pt_y pt = Fin b"
  shows "grid_step pt gx gy (Fin e) = Fin (min (grid_dist a b (gx, gy)) e)"
  using assms
  by (simp add: grid_step_def grid_dist_def dbl_def minus_fl_def power2_eq_square min_def)

lemma iter_not_less:
  assumes "special u \<or> special v"
  shows "\<not> ((Fin c - u) * (Fin c - u) + (Fin d - v) * (Fin d - v) < e)"
proof -
  have "(Fin c - u) * (Fin c - u) + (Fin d - v) * (Fin d - v) = PInf \<or>
        (Fin c - u) * (Fin c - u) + (Fin d - v) * (Fin d - v) = NaN"
    using assms by (cases u; cases v) (auto simp: minus_fl_def)
  then show ?thesis by (cases e) auto
qed

lemma grid_step_special:
  assumes "special (pt_x pt) \<or> special (pt_y pt)"
  shows "grid_step pt gx gy e = e"
  using iter_not_less[OF assms] by (simp add: grid_step_def dbl_def Let_def)

lemma fold_min_insert:
  "fold (\<lambda>g e. min (f g) e) gs (e0::real) = Min (insert e0 (f ` set gs))"
proof (induction gs arbitrary: e0)
  case Nil
  show ?case by simp
next
  case (Cons g gs)
  have "Min (insert (min (f g) e0) (f ` set gs)) = Min (insert e0 (insert (f g) (f ` set gs)))"
    by (cases "set gs = {}") (simp_all add: min.commute min.left_commute)
  with Cons show ?case by simp
qed

lemma fold_grid_step_inner:
  assumes "pt_x pt = Fin a" "pt_y pt = Fin b"
  shows "fold (\<lambda>gy. grid_step pt gx gy) ys (Fin e) =
         Fin (Min (insert e (grid_dist a b ` (\<lambda>gy. (gx, gy)) ` set ys)))"
proof -
  have "fold (\<lambda>gy. grid_step pt gx gy) ys (Fin e) =
        Fin (fold (\<lambda>gy e. min (grid_dist a b (gx, gy)) e) ys e)"
    by (induction ys arbitrary: e) (simp_all add: grid_step_Fin[OF assms])
  then show ?thesis by (simp add: fold_min_insert image_image)
qed

lemma Min_insert_Min:
  assumes "finite A" "finite B"
  shows "Min (insert (Min (insert (e::real) A)) B) = Min (insert e (A \<union> B))"
proof (cases "B = {}")
  case True
  then show ?thesis by simp
next
  case False
  have "Min (insert e (A \<union> B)) = Min (insert e A \<union> B)" by simp
  also have "\<dots> = min (Min (insert e A)) (Min B)"
    using assms False by (intro Min_Un) auto
  also have "\<dots> = Min (insert (Min (insert e A)) B)"
    using assms False by simp
  finally show ?thesis by simp
qed

lemma fold_grid_step_outer:
  assumes "pt_x pt = Fin a" "pt_y pt = Fin b"
  shows "fold (\<lambda>gx. fold (\<lambda>gy. grid_step pt gx gy) ys) xs (Fin e) =
         Fin (Min (insert e (grid_dist a b ` (set xs \<times> set ys))))"
proof (induction xs arbitrary: e)
  case Nil
  show ?case by simp
next
  case (Cons gx xs)
  have split: "set (gx # xs) \<times> set ys = (\<lambda>gy. (gx, gy)) ` set ys \<union> set xs \<times> set ys"
    by auto
  show ?case
    by (simp only: fold_Cons_rev fold.simps o_apply fold_grid_step_inner[OF assms] Cons.IH split
          image_Un Min_insert_Min[OF finite_imageI[OF finite_imageI[OF finite_set]]
            finite_imageI[OF finite_cartesian_product[OF finite_set finite_set]]])
qed

lemma set_upto_1_7: "set [1..7] = {1..7::int}"
  by simp

lemma point_error_finite:
  assumes "pt_x pt = Fin a" "pt_y pt = Fin b"
  shows "point_error pt = Fin (min 1000 (Min (grid_dist a b ` ({1..7} \<times> {1..7}))))"
proof -
  have ne: "grid_dist a b ` ({1..7} \<times> {1..7}) \<noteq> {}" by simp
  have "point_error pt = Fin (Min (insert 1000 (grid_dist a b ` ({1..7} \<times> {1..7}))))"
    unfolding point_error_def fold_grid_step_outer[OF assms] set_upto_1_7 ..
  also have "\<dots> = Fin (min 1000 (Min (grid_dist a b ` ({1..7} \<times> {1..7}))))"
    using ne by (subst Min_insert) auto
  finally show ?thesis .
qed

lemma point_error_special:
  assumes "special (pt_x pt) \<or> special (pt_y pt)"
  shows "point_error pt = Fin 1000"
proof -
  have "fold (\<lambda>gx. fold (\<lambda>gy. grid_step pt gx gy) ys) xs e = e" for xs ys e
  proof (induction xs arbitrary: e)
    case Nil
    show ?case by simp
  next
    case (Cons gx xs)
    have "fold (\<lambda>gy. grid_step pt gx gy) ys e = e" for e
      by (induction ys arbitrary: e) (simp_all add: grid_step_special[OF assms])
    with Cons show ?case by simp
  qed
  then show ?thesis by (simp add: point_error_def)
qed

lemma fl_cases2:
  obtains (fin) a b where "u = Fin a" "v = Fin b" | (special) "special u \<or> special v"
  by (cases u; cases v) auto



subsection \<open>The score\<close>

lemma grid_dist_nonneg: "0 \<le> grid_dist a b g"
  by (simp add: grid_dist_def)

lemma Min_grid_dist_nonneg: "0 \<le> Min (grid_dist a b ` ({1..7} \<times> {1..7}))"
  by (subst Min_ge_iff) (auto simp: grid_dist_nonneg)

lemma point_error_range: "\<exists>r. point_error pt = Fin r \<and> 0 \<le> r \<and> r \<le> 1000"
proof (cases "pt_x pt" "pt_y pt" rule: fl_cases2)
  case (fin a b)
  then show ?thesis using Min_grid_dist_nonneg[of a b] by (simp add: point_error_finite)
next
  case special
  then show ?thesis by (simp add: point_error_special)
qed

lemma grid_dist_zero_iff:
  "grid_dist a b g = 0 \<longleftrightarrow>
     a = 0.05715 * real_of_int (fst g) \<and> b = 0.05715 * real_of_int (snd g)"
  unfolding grid_dist_def by (auto simp: sum_power2_eq_zero_iff)

lemma planar_grid_point_iff:
  "planar_grid_point q \<longleftrightarrow>
     (\<exists>a b. pt_x q = Fin a \<and> pt_y q = Fin b \<and> (\<exists>g \<in> {1..7} \<times> {1..7}. grid_dist a b g = 0))"
  unfolding planar_grid_point_def list_ex_iff set_upto_1_7 grid_dist_zero_iff
  by (cases "pt_x q"; cases "pt_y q") auto

lemma min_cap_zero_iff: "0 \<le> m \<Longrightarrow> min 1000 m = 0 \<longleftrightarrow> m = (0::real)"
  by (simp add: min_def)

lemma point_error_zero_iff: "point_error q = Fin 0 \<longleftrightarrow> planar_grid_point q"
proof (cases "pt_x q" "pt_y q" rule: fl_cases2)
  case (fin a b)
  let ?S = "grid_dist a b ` ({1..7} \<times> {1..7})"
  have fS: "finite ?S" and ne: "?S \<noteq> {}" by simp_all
  have "Min ?S = 0 \<longleftrightarrow> (\<exists>g \<in> {1..7} \<times> {1..7}. grid_dist a b g = 0)"
  proof
    assume "Min ?S = 0"
    then have "0 \<in> ?S" using Min_in[OF fS ne] by simp
    then show "\<exists>g \<in> {1..7} \<times> {1..7}. grid_dist a b g = 0" by force
  next
    assume "\<exists>g \<in> {1..7} \<times> {1..7}. grid_dist a b g = 0"
    then have "0 \<in> ?S" by force
    then have "Min ?S \<le> 0" using fS by (rule_tac Min_le) auto
    with Min_grid_dist_nonneg[of a b] show "Min ?S = 0" by linarith
  qed
  moreover have "point_error q = Fin 0 \<longleftrightarrow> Min ?S = 0"
    unfolding point_error_finite[OF fin] fl.inject
    by (rule min_cap_zero_iff[OF Min_grid_dist_nonneg])
  ultimately show ?thesis using fin by (simp add: planar_grid_point_iff)
next
  case special
  then have "\<not> planar_grid_point q"
    by (auto simp: planar_grid_point_iff)
  then show ?thesis using special by (simp add: point_error_special)
qed

lemma upto_1_7: "[1..7] = [1, 2, 3, 4, 5, 6, 7::int]"
  by (simp add: upto.simps)

subsection \<open>The accumulated score\<close>

lemma nonneg_simps [simp]:
  "nonneg (Fin r) = (0 \<le> r)" "nonneg PInf" "\<not> nonneg NInf" "\<not> nonneg NaN"
  by (simp_all add: nonneg_def)

lemma normal_pos_simps [simp]:
  "normal_pos (Fin r) = (2 powi (- 126) \<le> r)" "normal_pos PInf"
  "\<not> normal_pos NInf" "\<not> normal_pos NaN"
  by (simp_all add: normal_pos_def)

lemma normal_pos_nonneg: "normal_pos u \<Longrightarrow> nonneg u"
  by (cases u) simp_all

lemma normal_pos_not_zero: "normal_pos u \<Longrightarrow> u \<noteq> Fin 0"
  by (cases u) auto

lemma r32_nonneg: "0 \<le> x \<Longrightarrow> nonneg (r32 x)"
  unfolding r32_def using rnd_nonneg[of x 24 253 127] by auto

lemma r32_normal_pos: "2 powi (- 126) \<le> x \<Longrightarrow> normal_pos (r32 x)"
  unfolding r32_def using rnd_lower[of 24 127 253 x] by auto

lemma add32_nonneg:
  assumes "nonneg u" "nonneg v"
  shows "nonneg (add32 u v)"
  using assms by (cases u; cases v) (simp_all add: add32_def r32_nonneg)

lemma add32_normal_pos:
  assumes "nonneg u" "normal_pos v"
  shows "normal_pos (add32 u v)"
proof (cases u; cases v)
  fix a b assume "u = Fin a" "v = Fin b"
  with assms have "2 powi (- 126) \<le> a + b" by simp
  then have "normal_pos (r32 (a + b))" by (rule r32_normal_pos)
  with \<open>u = Fin a\<close> \<open>v = Fin b\<close> show ?thesis by (simp add: add32_def)
qed (use assms in \<open>simp_all add: add32_def\<close>)

lemma to_float_point_error_nonneg: "nonneg (to_float (point_error p))"
proof -
  obtain r where "point_error p = Fin r" "0 \<le> r"
    using point_error_range[of p] by blast
  then show ?thesis by (simp add: to_float_def r32_nonneg)
qed

lemma fold_add32_nonneg:
  assumes "nonneg acc"
  shows "nonneg (fold (\<lambda>pt error. add32 error (to_float (point_error pt))) ps acc)"
  using assms
proof (induction ps arbitrary: acc)
  case Nil
  then show ?case by simp
next
  case (Cons p ps)
  from Cons.prems have "nonneg (add32 acc (to_float (point_error p)))"
    by (simp add: add32_nonneg to_float_point_error_nonneg)
  then show ?case by (simp add: Cons.IH)
qed

lemma fit_error_nonneg: "nonneg (fit_error ps)"
  unfolding fit_error_def by (rule fold_add32_nonneg) simp

lemma fit_error_snoc:
  "fit_error (ps @ [q]) = add32 (fit_error ps) (to_float (point_error q))"
  by (simp add: fit_error_def)

subsection \<open>Points with single-precision coordinates\<close>

text \<open>
  No \<^verbatim>\<open>float\<close> is the coordinate \<open>0.05715 * gx\<close> of a grid intersection, which is not a
  dyadic number: a \<^verbatim>\<open>float\<close> above \<open>2 ^ -5\<close> in magnitude is a multiple of \<open>2 ^ -28\<close>,
  and \<open>1143 * gx * 2 ^ 28\<close> is not a multiple of 20000.
\<close>

lemma grid_not_dyadic:
  assumes "gx \<in> {1..7}"
  shows "1143 * gx * 268435456 - 20000 * m \<noteq> (0::int)"
proof
  assume "1143 * gx * 268435456 - 20000 * m = 0"
  then have "20000 dvd 1143 * gx * 268435456" by (simp add: dvd_def)
  moreover from assms have "gx = 1 \<or> gx = 2 \<or> gx = 3 \<or> gx = 4 \<or> gx = 5 \<or> gx = 6 \<or> gx = 7"
    by auto
  ultimately show False by auto
qed

lemma float_off_grid:
  assumes "r32 a = Fin a" "gx \<in> {1..7}"
  shows "2 powi (- 43) \<le> \<bar>0.05715 * real_of_int gx - a\<bar>"
proof (cases "2 powi (- 5) < \<bar>a\<bar>")
  case True
  with assms(1) obtain m :: int where "a = of_int m * 2 powi (- 5 - (int 24 - 1))"
    unfolding r32_def using rnd_Fin_multiple by blast
  then have a: "a = of_int m / 268435456" by simp
  define N where "N = 1143 * gx * 268435456 - 20000 * m"
  have "N \<noteq> 0" unfolding N_def using assms(2) by (rule grid_not_dyadic)
  then have "1 \<le> \<bar>N\<bar>" by linarith
  then have "(1::real) \<le> \<bar>of_int N\<bar>" by (metis of_int_1_le_iff of_int_abs)
  moreover have "0.05715 * real_of_int gx - a = of_int N / 5368709120000"
    by (simp add: a N_def field_simps)
  ultimately have "1 / 5368709120000 \<le> \<bar>0.05715 * real_of_int gx - a\<bar>"
    by (simp only: abs_divide)
  then show ?thesis by simp
next
  case False
  then have "\<bar>a\<bar> \<le> 1 / 32" by simp
  moreover from assms(2) have "1 \<le> real_of_int gx" by simp
  ultimately have "1 / 50 \<le> \<bar>0.05715 * real_of_int gx - a\<bar>" by (simp add: abs_le_iff)
  then show ?thesis by simp
qed

lemma grid_dist_float_lower:
  assumes "r32 a = Fin a" "g \<in> {1..7} \<times> {1..7}"
  shows "2 powi (- 126) \<le> grid_dist a b g"
proof -
  have "fst g \<in> {1..7}" using assms(2) by auto
  from float_off_grid[OF assms(1) this]
  have "(2 powi (- 43))\<^sup>2 \<le> \<bar>0.05715 * real_of_int (fst g) - a\<bar>\<^sup>2"
    by (intro power_mono) simp_all
  then have "(2 powi (- 43))\<^sup>2 \<le> (0.05715 * real_of_int (fst g) - a)\<^sup>2"
    by (simp only: power2_abs)
  moreover have "0 \<le> (0.05715 * real_of_int (snd g) - b)\<^sup>2" by simp
  moreover have "2 powi (- 126) \<le> ((2::real) powi (- 43))\<^sup>2"
    by (simp add: power_divide)
  ultimately show ?thesis unfolding grid_dist_def by linarith
qed

lemma point_error_float_lower:
  assumes "float32 (pt_x pt)"
  shows "\<exists>r. point_error pt = Fin r \<and> 2 powi (- 126) \<le> r"
proof (cases "pt_x pt" "pt_y pt" rule: fl_cases2)
  case (fin a b)
  with assms have a: "r32 a = Fin a" by (simp add: float32_def)
  have "2 powi (- 126) \<le> Min (grid_dist a b ` ({1..7} \<times> {1..7}))"
    by (subst Min_ge_iff) (use grid_dist_float_lower[OF a] in auto)
  then have "2 powi (- 126) \<le> min 1000 (Min (grid_dist a b ` ({1..7} \<times> {1..7})))"
    by (simp only: min_def) (simp split: if_splits)
  then show ?thesis by (simp only: point_error_finite[OF fin]) blast
next
  case special
  then show ?thesis by (simp add: point_error_special)
qed

lemma float_not_on_grid:
  assumes "float32 (pt_x q)"
  shows "\<not> planar_grid_point q"
proof
  assume "planar_grid_point q"
  then have "point_error q = Fin 0" by (simp only: point_error_zero_iff)
  with point_error_float_lower[OF assms] two_powi_pos[of "- 126"] show False by auto
qed

lemma to_float_point_error_normal_pos:
  assumes "float32 (pt_x p)"
  shows "normal_pos (to_float (point_error p))"
proof -
  obtain r where "point_error p = Fin r" "2 powi (- 126) \<le> r"
    using point_error_float_lower[OF assms] by blast
  then show ?thesis by (simp add: to_float_def r32_normal_pos)
qed

lemma fold_add32_normal_pos:
  assumes "nonneg acc" "ps \<noteq> []" "\<forall>p \<in> set ps. float32 (pt_x p)"
  shows "normal_pos (fold (\<lambda>pt error. add32 error (to_float (point_error pt))) ps acc)"
  using assms
proof (induction ps arbitrary: acc)
  case Nil
  then show ?case by simp
next
  case (Cons p ps)
  from Cons.prems have n: "normal_pos (add32 acc (to_float (point_error p)))"
    by (simp add: add32_normal_pos to_float_point_error_normal_pos)
  show ?case
  proof (cases "ps = []")
    case True
    with n show ?thesis by simp
  next
    case False
    with Cons.prems n show ?thesis
      by (simp add: Cons.IH normal_pos_nonneg)
  qed
qed

lemma fit_error_float_not_zero:
  assumes "ps \<noteq> []" "\<forall>p \<in> set ps. float32 (pt_x p)"
  shows "fit_error ps \<noteq> Fin 0"
  unfolding fit_error_def
  using fold_add32_normal_pos[OF _ assms, of "Fin 0"] by (simp add: normal_pos_not_zero)

text \<open>
  C5, as the source has it. The score is the sum of the contributions of the
  transformed board points, accumulated in a \<^verbatim>\<open>float\<close> in the order of the points, each
  addition rounded; it is not invariant to that order. For transformed points whose x
  and y are \<^verbatim>\<open>float\<close> values, the score is zero exactly when every transformed point is
  one of the 7x7 grid intersections, and that is the case of the empty collection only:
  no \<^verbatim>\<open>float\<close> is the coordinate of a grid intersection.
\<close>

theorem fit_score_zero_iff:
  assumes "\<forall>p \<in> set data.
     float32 (pt_x (transformPoint L t p)) \<and> float32 (pt_y (transformPoint L t p))"
  shows "(fit_score L t data = Fin 0 \<longleftrightarrow> (\<forall>p \<in> set data. grid_point (transformPoint L t p))) \<and>
         (fit_score L t data = Fin 0 \<longleftrightarrow> data = []) \<and>
         fit_score L t (data @ [q]) =
           add32 (fit_score L t data) (to_float (point_error (transformPoint L t q)))"
proof -
  have zero: "fit_score L t data = Fin 0 \<longleftrightarrow> data = []"
  proof
    assume z: "fit_score L t data = Fin 0"
    show "data = []"
    proof (rule ccontr)
      assume "data \<noteq> []"
      then have "map (transformPoint L t) data \<noteq> []" by simp
      moreover have "\<forall>q \<in> set (map (transformPoint L t) data). float32 (pt_x q)"
        using assms by simp
      ultimately have "fit_error (map (transformPoint L t) data) \<noteq> Fin 0"
        by (rule fit_error_float_not_zero)
      with z show False by (simp add: fit_score_def transformPointCloud_def)
    qed
  next
    assume "data = []"
    then show "fit_score L t data = Fin 0"
      by (simp add: fit_score_def transformPointCloud_def fit_error_def)
  qed
  have grid: "(\<forall>p \<in> set data. grid_point (transformPoint L t p)) \<longleftrightarrow> data = []"
  proof
    assume g: "\<forall>p \<in> set data. grid_point (transformPoint L t p)"
    show "data = []"
    proof (rule ccontr)
      assume "data \<noteq> []"
      then obtain p where p: "p \<in> set data" by (cases data) auto
      with assms have "\<not> planar_grid_point (transformPoint L t p)"
        by (intro float_not_on_grid) simp
      with g p show False by (simp add: grid_point_def)
    qed
  qed simp
  have "fit_score L t (data @ [q]) =
        add32 (fit_score L t data) (to_float (point_error (transformPoint L t q)))"
    by (simp add: fit_score_def transformPointCloud_def fit_error_snoc)
  with zero grid show ?thesis by simp
qed

lemma r32_sixteenth: "r32 (1 / 16) = Fin (1 / 16)"
  by (subst r32_eval[where k = "- 4"]; simp add: rne_def)

lemma r32_117: "r32 (117 / 2048) = Fin (117 / 2048)"
  by (subst r32_eval[where k = "- 5"]; simp add: rne_def)

lemma r32_hundred: "r32 100 = Fin 100"
  by (subst r32_eval[where k = 6]; simp add: rne_def)

theorem fit_score_zero_iff_witness:
  "float32 (Fin (1 / 16)) \<and> float32 (Fin (117 / 2048)) \<and>
   fit_score translation_pcl (Fin 0, Fin 0)
     [\<lparr>pt_x = Fin (1 / 16), pt_y = Fin (117 / 2048), pt_z = Fin 0\<rparr>] \<noteq> Fin 0 \<and>
   \<not> grid_point (transformPoint translation_pcl (Fin 0, Fin 0)
        \<lparr>pt_x = Fin (1 / 16), pt_y = Fin (117 / 2048), pt_z = Fin 0\<rparr>)"
proof -
  have f: "float32 (Fin (1 / 16))" "float32 (Fin (117 / 2048))"
    by (simp_all add: float32_def r32_sixteenth r32_117)
  then have h: "\<forall>p \<in> set [\<lparr>pt_x = Fin (1 / 16), pt_y = Fin (117 / 2048), pt_z = Fin 0\<rparr>].
     float32 (pt_x (transformPoint translation_pcl (Fin 0, Fin 0) p)) \<and>
     float32 (pt_y (transformPoint translation_pcl (Fin 0, Fin 0) p))"
    by (simp add: translation_pcl_def)
  show ?thesis
    using f fit_score_zero_iff[OF h, of "\<lparr>pt_x = Fin 0, pt_y = Fin 0, pt_z = Fin 0\<rparr>"]
    by auto
qed

text \<open>
  C5 as stated fails. All the coordinates below are \<^verbatim>\<open>float\<close> values. The first point
  is far from the grid and contributes 1000; each of the other two is near the grid
  intersection \<open>(1, 1)\<close> and contributes less than half a unit in the last place of
  1000. With the far point first the two small contributions are rounded away one after
  the other and the score is 1000; with the far point last they are added to each other
  first and the score is \<open>1000 + 2 ^ -14\<close>.
\<close>

lemma point_error_far: "point_error \<lparr>pt_x = Fin 100, pt_y = Fin 100, pt_z = Fin 0\<rparr> = Fin 1000"
  by (simp add: point_error_def grid_step_def upto_1_7 dbl_def minus_fl_def)

lemma point_error_close:
  "point_error \<lparr>pt_x = Fin (1 / 16), pt_y = Fin (117 / 2048), pt_z = z\<rparr> =
     Fin (46895833 / 1638400000000)"
  by (simp add: point_error_def grid_step_def upto_1_7 dbl_def minus_fl_def)

lemma r32_contribution:
  "r32 1000 = Fin 1000"
  "r32 (46895833 / 1638400000000) = Fin (7867815 / 274877906944)"
  "r32 (7867815 / 274877906944) = Fin (7867815 / 274877906944)"
  by (subst r32_eval[where k = 9], simp, simp, simp, simp, simp add: rne_def,
      subst r32_eval[where k = "- 16"], simp, simp, simp, simp, simp add: rne_def,
      subst r32_eval[where k = "- 16"], simp, simp, simp, simp, simp add: rne_def)

lemma r32_far_first: "r32 (274877914811815 / 274877906944) = Fin 1000"
  by (subst r32_eval[where k = 9]; simp add: rne_def)

lemma r32_far_last:
  "r32 (7867815 / 137438953472) = Fin (7867815 / 137438953472)"
  "r32 (137438961339815 / 137438953472) = Fin (16384001 / 16384)"
  by (subst r32_eval[where k = "- 15"], simp, simp, simp, simp, simp add: rne_def,
      subst r32_eval[where k = 9], simp, simp, simp, simp, simp add: rne_def)

theorem fit_score_order_dependent:
  "float32 (Fin 100) \<and> float32 (Fin (1 / 16)) \<and> float32 (Fin (117 / 2048)) \<and>
   fit_score translation_pcl (Fin 0, Fin 0)
     [\<lparr>pt_x = Fin 100, pt_y = Fin 100, pt_z = Fin 0\<rparr>,
      \<lparr>pt_x = Fin (1 / 16), pt_y = Fin (117 / 2048), pt_z = Fin 0\<rparr>,
      \<lparr>pt_x = Fin (1 / 16), pt_y = Fin (117 / 2048), pt_z = Fin 1\<rparr>] = Fin 1000 \<and>
   fit_score translation_pcl (Fin 0, Fin 0)
     [\<lparr>pt_x = Fin (1 / 16), pt_y = Fin (117 / 2048), pt_z = Fin 0\<rparr>,
      \<lparr>pt_x = Fin (1 / 16), pt_y = Fin (117 / 2048), pt_z = Fin 1\<rparr>,
      \<lparr>pt_x = Fin 100, pt_y = Fin 100, pt_z = Fin 0\<rparr>] = Fin (1000 + 1 / 2 ^ 14)"
  by (simp add: float32_def r32_hundred r32_sixteenth r32_117
        fit_score_def transformPointCloud_def translation_pcl_def fit_error_def add32_def
        to_float_def point_error_far point_error_close r32_contribution r32_far_first
        r32_far_last)

section \<open>The search over the candidate triples\<close>

lemma fold_concat_map: "fold f (concat (map g xs)) = fold (\<lambda>x. fold f (g x)) xs"
  by (induction xs) simp_all

lemma evaluate_candidates_fold:
  "evaluate_candidates L data a1 a8 h1 t0 =
   fold (evaluate_triple L data) (triples a1 a8 h1) (Fin (- 1), t0)"
  by (simp add: evaluate_candidates_def triples_def fold_concat_map fold_map comp_def)

lemma triples_empty: "a1 = [] \<or> a8 = [] \<or> h1 = [] \<Longrightarrow> triples a1 a8 h1 = []"
  by (auto simp: triples_def)

lemma triples_nonempty:
  assumes "a1 \<noteq> []" "a8 \<noteq> []" "h1 \<noteq> []"
  shows "triples a1 a8 h1 \<noteq> []"
proof -
  from assms obtain i a1' j a8' k h1' where
    "a1 = i # a1'" "a8 = j # a8'" "h1 = k # h1'"
    by (meson list.exhaust)
  then show ?thesis by (simp add: triples_def)
qed

text \<open>
  With an empty candidate set the loops run no iteration and leave \<open>best_score\<close> at
  \<open>-1\<close> and \<open>best_transform\<close> as it was declared.
\<close>

lemma evaluate_candidates_empty:
  assumes "a1 = [] \<or> a8 = [] \<or> h1 = []"
  shows "evaluate_candidates L data a1 a8 h1 t0 = (Fin (- 1), t0)"
  by (simp add: evaluate_candidates_fold triples_empty[OF assms])

subsection \<open>The order of the scores\<close>

lemma fl_less_irrefl: "\<not> (u::fl) < u"
  by (cases u) simp_all

lemma fl_less_trans: "(u::fl) < v \<Longrightarrow> v < w \<Longrightarrow> u < w"
  by (cases u; cases v; cases w) simp_all

lemma nonneg_trichotomy: "nonneg u \<Longrightarrow> nonneg v \<Longrightarrow> u < v \<or> u = v \<or> v < u"
  by (cases u; cases v) auto

lemma nonneg_not_less_zero: "nonneg u \<Longrightarrow> \<not> u < Fin 0"
  by (cases u) simp_all

lemma triple_score_nonneg: "nonneg (triple_score L data ijk)"
  by (simp add: triple_score_def fit_score_def fit_error_nonneg)

lemma evaluate_triple_first:
  "evaluate_triple L data ijk (Fin (- 1), t0) =
   (triple_score L data ijk, candidate_transform L data ijk)"
  by (simp add: evaluate_triple_def triple_score_def Let_def)

lemma evaluate_triple_later:
  assumes "nonneg s"
  shows "evaluate_triple L data ijk (s, t) =
     (if triple_score L data ijk < s
      then (triple_score L data ijk, candidate_transform L data ijk) else (s, t))"
  using nonneg_not_less_zero[OF assms]
  by (simp add: evaluate_triple_def triple_score_def Let_def)

lemma fold_evaluate_triple:
  assumes "ts \<noteq> []"
  shows "\<exists>n<length ts.
     fold (evaluate_triple L data) ts (Fin (- 1), t0) =
       (triple_score L data (ts ! n), candidate_transform L data (ts ! n)) \<and>
     (\<forall>m<length ts. \<not> triple_score L data (ts ! m) < triple_score L data (ts ! n)) \<and>
     (\<forall>m<n. triple_score L data (ts ! n) < triple_score L data (ts ! m))"
  using assms
proof (induction ts rule: rev_induct)
  case Nil
  then show ?case by simp
next
  case (snoc x ts)
  let ?sc = "triple_score L data"
  show ?case
  proof (cases "ts = []")
    case True
    then show ?thesis by (simp add: evaluate_triple_first fl_less_irrefl)
  next
    case False
    with snoc.IH obtain n where n: "n < length ts"
      and best: "fold (evaluate_triple L data) ts (Fin (- 1), t0) =
         (?sc (ts ! n), candidate_transform L data (ts ! n))"
      and least: "\<forall>m<length ts. \<not> ?sc (ts ! m) < ?sc (ts ! n)"
      and first: "\<forall>m<n. ?sc (ts ! n) < ?sc (ts ! m)"
      by blast
    have step: "fold (evaluate_triple L data) (ts @ [x]) (Fin (- 1), t0) =
       (if ?sc x < ?sc (ts ! n)
        then (?sc x, candidate_transform L data x)
        else (?sc (ts ! n), candidate_transform L data (ts ! n)))"
      by (simp add: best evaluate_triple_later[OF triple_score_nonneg])
    show ?thesis
    proof (cases "?sc x < ?sc (ts ! n)")
      case True
      have "\<not> ?sc ((ts @ [x]) ! m) < ?sc x" if "m < length (ts @ [x])" for m
      proof (cases "m < length ts")
        case m: True
        show ?thesis
        proof
          assume "?sc ((ts @ [x]) ! m) < ?sc x"
          then have "?sc (ts ! m) < ?sc (ts ! n)"
            using True m fl_less_trans by (simp add: nth_append)
          with least m show False by blast
        qed
      next
        case False
        with that have "m = length ts" by simp
        then show ?thesis by (simp add: fl_less_irrefl)
      qed
      moreover have "?sc x < ?sc ((ts @ [x]) ! m)" if "m < length ts" for m
      proof -
        from least that have "\<not> ?sc (ts ! m) < ?sc (ts ! n)" by blast
        then have "?sc (ts ! n) < ?sc (ts ! m) \<or> ?sc (ts ! n) = ?sc (ts ! m)"
          using nonneg_trichotomy[OF triple_score_nonneg triple_score_nonneg, of L data "ts ! n" L data "ts ! m"]
          by blast
        then have "?sc x < ?sc (ts ! m)"
          using True fl_less_trans by auto
        with that show ?thesis by (simp add: nth_append)
      qed
      ultimately show ?thesis
        using step True by (intro exI[of _ "length ts"]) simp
    next
      case False
      have "\<not> ?sc ((ts @ [x]) ! m) < ?sc (ts ! n)" if "m < length (ts @ [x])" for m
      proof (cases "m < length ts")
        case True
        with least show ?thesis by (simp add: nth_append)
      next
        case f: False
        with that have "m = length ts" by simp
        with False show ?thesis by simp
      qed
      moreover have "\<forall>m<n. ?sc (ts ! n) < ?sc ((ts @ [x]) ! m)"
        using first n by (simp add: nth_append)
      ultimately show ?thesis
        using step False n by (intro exI[of _ n]) (simp add: nth_append)
    qed
  qed
qed

text \<open>
  C8. When the three candidate sets are non-empty, the search ends with the score and the
  transform of one of the enumerated triples; no triple has a score below it, and every
  triple enumerated before it has a strictly greater score, so among the triples of
  least score the first one is kept.
\<close>

theorem evaluate_candidates_minimum:
  assumes "a1 \<noteq> []" "a8 \<noteq> []" "h1 \<noteq> []"
  shows "\<exists>n<length (triples a1 a8 h1).
     evaluate_candidates L data a1 a8 h1 t0 =
       (triple_score L data (triples a1 a8 h1 ! n),
        candidate_transform L data (triples a1 a8 h1 ! n)) \<and>
     (\<forall>m<length (triples a1 a8 h1).
        \<not> triple_score L data (triples a1 a8 h1 ! m) < triple_score L data (triples a1 a8 h1 ! n)) \<and>
     (\<forall>m<n. triple_score L data (triples a1 a8 h1 ! n) < triple_score L data (triples a1 a8 h1 ! m))"
  using fold_evaluate_triple[OF triples_nonempty[OF assms], of L data t0]
  unfolding evaluate_candidates_fold .

theorem evaluate_candidates_minimum_witness:
  "[0, 3] \<noteq> [] \<and> [1] \<noteq> [] \<and> [2] \<noteq> ([]::nat list) \<and>
   (\<exists>n<length (triples [0, 3] [1] [2]).
     evaluate_candidates translation_pcl
       [\<lparr>pt_x = Fin 1, pt_y = Fin 2, pt_z = Fin 0\<rparr>, \<lparr>pt_x = Fin 1, pt_y = Fin 0, pt_z = Fin 0\<rparr>,
        \<lparr>pt_x = Fin 3, pt_y = Fin 2, pt_z = Fin 0\<rparr>, \<lparr>pt_x = Fin 0, pt_y = Fin 3, pt_z = Fin 0\<rparr>]
       [0, 3] [1] [2] (NaN, NaN) =
       (triple_score translation_pcl
          [\<lparr>pt_x = Fin 1, pt_y = Fin 2, pt_z = Fin 0\<rparr>, \<lparr>pt_x = Fin 1, pt_y = Fin 0, pt_z = Fin 0\<rparr>,
           \<lparr>pt_x = Fin 3, pt_y = Fin 2, pt_z = Fin 0\<rparr>, \<lparr>pt_x = Fin 0, pt_y = Fin 3, pt_z = Fin 0\<rparr>]
          (triples [0, 3] [1] [2] ! n),
        candidate_transform translation_pcl
          [\<lparr>pt_x = Fin 1, pt_y = Fin 2, pt_z = Fin 0\<rparr>, \<lparr>pt_x = Fin 1, pt_y = Fin 0, pt_z = Fin 0\<rparr>,
           \<lparr>pt_x = Fin 3, pt_y = Fin 2, pt_z = Fin 0\<rparr>, \<lparr>pt_x = Fin 0, pt_y = Fin 3, pt_z = Fin 0\<rparr>]
          (triples [0, 3] [1] [2] ! n)))"
  using evaluate_candidates_minimum [of "[0, 3]" "[1]" "[2]" translation_pcl
      "[\<lparr>pt_x = Fin 1, pt_y = Fin 2, pt_z = Fin 0\<rparr>, \<lparr>pt_x = Fin 1, pt_y = Fin 0, pt_z = Fin 0\<rparr>,
        \<lparr>pt_x = Fin 3, pt_y = Fin 2, pt_z = Fin 0\<rparr>, \<lparr>pt_x = Fin 0, pt_y = Fin 3, pt_z = Fin 0\<rparr>]"
      "(NaN, NaN)"]
  by blast

section \<open>Splitting the lines\<close>

lemma fold_split_step:
  "fold (split_step lines) is (h, v) =
     (h @ filter (\<lambda>i. \<bar>l2 (lines ! i) - l0 (lines ! i)\<bar> > \<bar>l3 (lines ! i) - l1 (lines ! i)\<bar>) is,
      v @ filter (\<lambda>i. \<not> \<bar>l2 (lines ! i) - l0 (lines ! i)\<bar> > \<bar>l3 (lines ! i) - l1 (lines ! i)\<bar>) is)"
  by (induction "is" arbitrary: h v) (simp_all add: split_step_def Let_def)

lemma split_lines_filter:
  "split_lines lines =
     (filter (\<lambda>i. \<bar>l2 (lines ! i) - l0 (lines ! i)\<bar> > \<bar>l3 (lines ! i) - l1 (lines ! i)\<bar>)
        [0..<length lines],
      filter (\<lambda>i. \<not> \<bar>l2 (lines ! i) - l0 (lines ! i)\<bar> > \<bar>l3 (lines ! i) - l1 (lines ! i)\<bar>)
        [0..<length lines])"
  by (simp add: split_lines_def fold_split_step)

text \<open>
  C6, as the source has it. The index of every line goes to exactly one of the two
  vectors, none is dropped: to \<open>h_indexes\<close> when the absolute horizontal extent is
  strictly greater than the absolute vertical extent, and to \<open>v_indexes\<close> otherwise, so a
  line of equal extents is vertical.
\<close>

theorem split_lines_partition:
  assumes "split_lines lines = (h_indexes, v_indexes)"
  shows "set h_indexes \<inter> set v_indexes = {} \<and>
         set h_indexes \<union> set v_indexes = {0..<length lines} \<and>
         distinct h_indexes \<and> distinct v_indexes \<and>
         (\<forall>i<length lines.
            (i \<in> set h_indexes \<longleftrightarrow>
               \<bar>l2 (lines ! i) - l0 (lines ! i)\<bar> > \<bar>l3 (lines ! i) - l1 (lines ! i)\<bar>) \<and>
            (i \<in> set v_indexes \<longleftrightarrow>
               \<bar>l2 (lines ! i) - l0 (lines ! i)\<bar> \<le> \<bar>l3 (lines ! i) - l1 (lines ! i)\<bar>))"
  using assms unfolding split_lines_filter by auto

theorem split_lines_partition_witness:
  "split_lines [\<lparr>l0 = 0, l1 = 5, l2 = 200, l3 = 5\<rparr>, \<lparr>l0 = 3, l1 = 0, l2 = 3, l3 = 100\<rparr>] = ([0], [1]) \<and>
   set [0::nat] \<inter> set [1] = {} \<and>
   set [0] \<union> set [1] = {0..<length [\<lparr>l0 = 0, l1 = 5, l2 = 200, l3 = 5\<rparr>, \<lparr>l0 = 3, l1 = 0, l2 = 3, l3 = 100\<rparr>]}"
proof -
  have s: "split_lines [\<lparr>l0 = 0, l1 = 5, l2 = 200, l3 = 5\<rparr>, \<lparr>l0 = 3, l1 = 0, l2 = 3, l3 = 100\<rparr>] = ([0], [1])"
    by (simp add: split_lines_def split_step_def)
  show ?thesis using s split_lines_partition[OF s] by blast
qed

text \<open>
  C6 as stated fails: the segment from \<open>(0, 0)\<close> to \<open>(10, 10)\<close> has equal extents and is
  classified vertical.
\<close>

theorem split_lines_tie_vertical:
  "split_lines [\<lparr>l0 = 0, l1 = 0, l2 = 10, l3 = 10\<rparr>] = ([], [0])"
  by (simp add: split_lines_def split_step_def)


section \<open>The board points\<close>

lemma r64_three_hundredths: "r64 (3 / 100) = Fin (1080863910568919 / 36028797018963968)"
proof -
  have "expo_from 2045 1023 (3 / 100) = - 6"
    by (rule expo_from_eq) simp_all
  then show ?thesis by (simp add: r64_def rnd_def rne_def)
qed

lemma include_scan_iff: "include_scan data cp \<longleftrightarrow> \<not> (\<exists>tp \<in> set data. near tp cp)"
  by (induction data) simp_all

text \<open>
  No \<^verbatim>\<open>float\<close> lies between the \<^verbatim>\<open>double\<close> nearest to 0.03 and 0.03 itself: in
  that binade a \<^verbatim>\<open>float\<close> is a multiple of \<open>2 ^ -29\<close>, and \<open>0.03 * 2 ^ 29\<close> is
  16106127.36.
\<close>

lemma float_gap:
  assumes "r32 x = Fin y"
  shows "y < 1080863910568919 / 2 ^ 55 \<longleftrightarrow> y \<le> 3 / 100"
proof
  assume "y < 1080863910568919 / 2 ^ 55"
  then show "y \<le> 3 / 100" by simp
next
  assume le: "y \<le> 3 / 100"
  show "y < 1080863910568919 / 2 ^ 55"
  proof (rule ccontr)
    assume "\<not> y < 1080863910568919 / 2 ^ 55"
    then have ge: "1080863910568919 / 2 ^ 55 \<le> y" by simp
    then have "2 powi (- 6) < \<bar>y\<bar>" by simp
    with assms obtain m :: int where "y = of_int m * 2 powi (- 6 - (int 24 - 1))"
      unfolding r32_def using rnd_Fin_multiple by blast
    then have y: "y = of_int m / 2 ^ 29" by simp
    from ge y have "(of_int 16106127 :: real) < of_int m" by (simp add: field_simps)
    then have "16106127 < m" by (simp only: of_int_less_iff)
    moreover from le y have "(of_int m :: real) < of_int 16106128" by (simp add: field_simps)
    then have "m < 16106128" by (simp only: of_int_less_iff)
    ultimately show False by linarith
  qed
qed

lemma r32_test: "r32 x < r64 (3 / 100) \<longleftrightarrow> r32 x \<le> Fin (3 / 100)"
proof (cases "r32 x")
  case (Fin y)
  then show ?thesis
    using float_gap[OF Fin] by (auto simp: r64_three_hundredths less_eq_fl_def)
qed (simp_all add: r64_three_hundredths less_eq_fl_def)

lemma add32_test: "add32 u v < r64 (3 / 100) \<longleftrightarrow> add32 u v \<le> Fin (3 / 100)"
proof (cases "\<exists>a b. u = Fin a \<and> v = Fin b")
  case True
  then show ?thesis by (auto simp: add32_def r32_test)
next
  case False
  then have "add32 u v = NaN \<or> add32 u v = PInf \<or> add32 u v = NInf"
    by (cases u; cases v) (auto simp: add32_def)
  then show ?thesis by (auto simp: r64_three_hundredths less_eq_fl_def)
qed

lemma near_iff: "near tp cp \<longleftrightarrow> l1_sum32 tp cp \<le> Fin 0.03"
  unfolding near_def l1_sum32_def using add32_test by simp

text \<open>
  C4, as the source has it. The distance of the duplicate scan is the sum that the code
  computes, every difference and every addition rounded to single precision. When that
  sum is at or below 0.03 for some retained point, the new point is dropped and the
  retained points stay as they are; when it is above 0.03 for every retained point, the
  new point is appended. The comparison of the code is strict, against the
  \<^verbatim>\<open>double\<close> nearest to 0.03; no \<^verbatim>\<open>float\<close> lies between that number and 0.03, so the
  strict test and the inclusive one agree and a sum of exactly 0.03 does not occur.
\<close>

theorem push_unless_near_sum32:
  "push_unless_near data cp =
     (if \<exists>tp \<in> set data. l1_sum32 tp cp \<le> Fin 0.03 then data else data @ [cp])"
  by (simp add: push_unless_near_def include_scan_iff near_iff)

lemma r32_half: "r32 (1 / 2) = Fin (1 / 2)" "r32 (- (1 / 2)) = Fin (- (1 / 2))"
  by (subst r32_eval[where k = "- 1"]; simp add: rne_def)+

theorem push_unless_near_sum32_witness:
  "l1_sum32 \<lparr>pt_x = Fin 0, pt_y = Fin 0, pt_z = Fin 0\<rparr>
     \<lparr>pt_x = Fin (1 / 2), pt_y = Fin 0, pt_z = Fin 0\<rparr> = Fin (1 / 2) \<and>
   push_unless_near [\<lparr>pt_x = Fin 0, pt_y = Fin 0, pt_z = Fin 0\<rparr>]
     \<lparr>pt_x = Fin (1 / 2), pt_y = Fin 0, pt_z = Fin 0\<rparr> =
     [\<lparr>pt_x = Fin 0, pt_y = Fin 0, pt_z = Fin 0\<rparr>, \<lparr>pt_x = Fin (1 / 2), pt_y = Fin 0, pt_z = Fin 0\<rparr>]"
proof -
  have s: "l1_sum32 \<lparr>pt_x = Fin 0, pt_y = Fin 0, pt_z = Fin 0\<rparr>
     \<lparr>pt_x = Fin (1 / 2), pt_y = Fin 0, pt_z = Fin 0\<rparr> = Fin (1 / 2)"
    by (simp add: l1_sum32_def add32_def sub32_def r32_half)
  show ?thesis
    using push_unless_near_sum32 [of "[\<lparr>pt_x = Fin 0, pt_y = Fin 0, pt_z = Fin 0\<rparr>]"
        "\<lparr>pt_x = Fin (1 / 2), pt_y = Fin 0, pt_z = Fin 0\<rparr>"]
    by (simp add: s less_eq_fl_def)
qed

text \<open>
  C4 as stated fails, for the exact sum of the absolute differences. The coordinates
  \<open>16106127 / 2 ^ 29\<close> (the \<^verbatim>\<open>float\<close> nearest to 0.03) and \<open>7 / 2 ^ 33\<close> are \<^verbatim>\<open>float\<close>
  values. The new point is at an exact L1 distance strictly beyond 0.03 from the only
  retained point, \<open>(0, 0, 0)\<close>; the \<^verbatim>\<open>float\<close> addition rounds the sum down to
  \<open>16106127 / 2 ^ 29\<close>, which is below the threshold, and the point is dropped.
\<close>

lemma r32_near_threshold:
  "r32 (16106127 / 536870912) = Fin (16106127 / 536870912)"
  "r32 (- (16106127 / 536870912)) = Fin (- (16106127 / 536870912))"
  "r32 (257698039 / 8589934592) = Fin (16106127 / 536870912)"
  by (subst r32_eval[where k = "- 6"]; simp add: rne_def)+

lemma r32_small:
  "r32 (7 / 8589934592) = Fin (7 / 8589934592)"
  "r32 (- (7 / 8589934592)) = Fin (- (7 / 8589934592))"
  by (subst r32_eval[where k = "- 31"]; simp add: rne_def)+

theorem push_unless_near_rounds_down:
  "float32 (Fin (16106127 / 2 ^ 29)) \<and> float32 (Fin (7 / 2 ^ 33)) \<and> float32 (Fin 0) \<and>
   0.03 < l1_distance \<lparr>pt_x = Fin 0, pt_y = Fin 0, pt_z = Fin 0\<rparr>
     \<lparr>pt_x = Fin (16106127 / 2 ^ 29), pt_y = Fin (7 / 2 ^ 33), pt_z = Fin 0\<rparr> \<and>
   push_unless_near [\<lparr>pt_x = Fin 0, pt_y = Fin 0, pt_z = Fin 0\<rparr>]
     \<lparr>pt_x = Fin (16106127 / 2 ^ 29), pt_y = Fin (7 / 2 ^ 33), pt_z = Fin 0\<rparr> =
     [\<lparr>pt_x = Fin 0, pt_y = Fin 0, pt_z = Fin 0\<rparr>]"
proof -
  have "l1_sum32 \<lparr>pt_x = Fin 0, pt_y = Fin 0, pt_z = Fin 0\<rparr>
     \<lparr>pt_x = Fin (16106127 / 2 ^ 29), pt_y = Fin (7 / 2 ^ 33), pt_z = Fin 0\<rparr> =
     Fin (16106127 / 2 ^ 29)"
    by (simp add: l1_sum32_def add32_def sub32_def r32_near_threshold r32_small)
  then have "near \<lparr>pt_x = Fin 0, pt_y = Fin 0, pt_z = Fin 0\<rparr>
     \<lparr>pt_x = Fin (16106127 / 2 ^ 29), pt_y = Fin (7 / 2 ^ 33), pt_z = Fin 0\<rparr>"
    by (simp add: near_def r64_three_hundredths)
  then show ?thesis
    by (simp add: push_unless_near_def float32_def r32_near_threshold r32_small l1_distance_def)
qed

subsection \<open>Missing cloud entries\<close>

lemma sub32_NaN: "u = NaN \<or> v = NaN \<Longrightarrow> \<bar>sub32 u v\<bar> = NaN"
  by (cases u; cases v) (auto simp: sub32_def minus_fl_def)

lemma add32_NaN: "u = NaN \<or> v = NaN \<Longrightarrow> add32 u v = NaN"
  by (cases u; cases v) (auto simp: add32_def)

lemma near_missing:
  assumes "missing cp"
  shows "\<not> near tp cp"
proof -
  have "\<bar>sub32 (pt_x tp) (pt_x cp)\<bar> = NaN \<or> \<bar>sub32 (pt_y tp) (pt_y cp)\<bar> = NaN \<or>
        \<bar>sub32 (pt_z tp) (pt_z cp)\<bar> = NaN"
    using assms sub32_NaN unfolding missing_def by blast
  then have "l1_sum32 tp cp = NaN"
    unfolding l1_sum32_def by (auto simp: add32_NaN)
  then show ?thesis by (simp add: near_def)
qed

text \<open>
  C3, as the source has it. For an intersection that passes the test of the caller, the
  entry of the cloud at that pixel is looked up and goes to the duplicate scan; its
  validity is not tested. An entry with a missing (NaN) coordinate is near no retained
  point, so it is always appended to the board points.
\<close>

theorem add_intersection_missing:
  assumes "0 < fst p" "0 < snd p" "missing (cloud (fst p) (snd p))"
  shows "add_intersection cloud data p = data @ [cloud (fst p) (snd p)]"
  using assms by (simp add: add_intersection_def push_unless_near_def include_scan_iff near_missing)

theorem add_intersection_missing_witness:
  "add_intersection (\<lambda>c r. \<lparr>pt_x = NaN, pt_y = NaN, pt_z = NaN\<rparr>)
     [\<lparr>pt_x = Fin 0, pt_y = Fin 0, pt_z = Fin 1\<rparr>] (30, 5) =
     [\<lparr>pt_x = Fin 0, pt_y = Fin 0, pt_z = Fin 1\<rparr>, \<lparr>pt_x = NaN, pt_y = NaN, pt_z = NaN\<rparr>]"
  using add_intersection_missing [of "(30, 5)" "\<lambda>c r. \<lparr>pt_x = NaN, pt_y = NaN, pt_z = NaN\<rparr>"
      "[\<lparr>pt_x = Fin 0, pt_y = Fin 0, pt_z = Fin 1\<rparr>]"]
  by (simp add: missing_def)

text \<open>
  C3 as stated fails: the horizontal segment from \<open>(0, 5)\<close> to \<open>(200, 5)\<close> and the segment
  from \<open>(30, 0)\<close> to \<open>(40, 100)\<close> intersect at the pixel \<open>(30, 5)\<close>; on a cloud without depth
  there, the board points hold the missing entry.
\<close>

theorem get_intersections_keeps_missing:
  "get_intersections (\<lambda>c r. \<lparr>pt_x = NaN, pt_y = NaN, pt_z = NaN\<rparr>)
     [\<lparr>l0 = 0, l1 = 5, l2 = 200, l3 = 5\<rparr>, \<lparr>l0 = 30, l1 = 0, l2 = 40, l3 = 100\<rparr>] [0] [1] =
     [\<lparr>pt_x = NaN, pt_y = NaN, pt_z = NaN\<rparr>] \<and>
   missing \<lparr>pt_x = NaN, pt_y = NaN, pt_z = NaN\<rparr>"
  by (simp add: get_intersections_def add_intersection_def push_unless_near_def
        findIntersection_def dbl_def minus_fl_def less_eq_fl_def missing_def)

subsection \<open>The first row and the first column\<close>

text \<open>
  C7, on the source. The horizontal segment from \<open>(0, 5)\<close> to \<open>(200, 5)\<close> and the segment
  from \<open>(0, 0)\<close> to \<open>(10, 100)\<close> intersect at \<open>x = 0.5\<close>, \<open>y = 5\<close>, within the image.
  \<open>findIntersection\<close> returns the pixel \<open>(0, 5)\<close> and not the sentinel; the caller tests
  \<open>p.x > 0\<close> and drops it, whatever the cloud holds.
\<close>

theorem get_intersections_drops_first_column:
  "findIntersection \<lparr>l0 = 0, l1 = 5, l2 = 200, l3 = 5\<rparr> \<lparr>l0 = 0, l1 = 0, l2 = 10, l3 = 100\<rparr> = (0, 5) \<and>
   get_intersections cloud
     [\<lparr>l0 = 0, l1 = 5, l2 = 200, l3 = 5\<rparr>, \<lparr>l0 = 0, l1 = 0, l2 = 10, l3 = 100\<rparr>] [0] [1] = []"
  by (simp add: get_intersections_def add_intersection_def
        findIntersection_def dbl_def minus_fl_def less_eq_fl_def)

section \<open>Corner candidates\<close>

lemma fold_candidate_step:
  "fold (candidate_step centroid data) is (a1, a8, h1) =
     (a1 @ filter (\<lambda>i. pt_x (data ! i) < fst centroid - Fin 0.05 \<and>
                        pt_y (data ! i) > snd centroid + Fin 0.05) is,
      a8 @ filter (\<lambda>i. \<not> (pt_x (data ! i) < fst centroid - Fin 0.05 \<and>
                           pt_y (data ! i) > snd centroid + Fin 0.05) \<and>
                        pt_x (data ! i) < fst centroid - Fin 0.05 \<and>
                        pt_y (data ! i) < snd centroid - Fin 0.05) is,
      h1 @ filter (\<lambda>i. \<not> (pt_x (data ! i) < fst centroid - Fin 0.05 \<and>
                           pt_y (data ! i) > snd centroid + Fin 0.05) \<and>
                        \<not> (pt_x (data ! i) < fst centroid - Fin 0.05 \<and>
                           pt_y (data ! i) < snd centroid - Fin 0.05) \<and>
                        pt_x (data ! i) > fst centroid + Fin 0.05 \<and>
                        pt_y (data ! i) > snd centroid + Fin 0.05) is)"
  by (induction "is" arbitrary: a1 a8 h1) (simp_all add: candidate_step_def Let_def)

lemma margin_x:
  assumes "\<bar>px - cx\<bar> \<le> 0.05"
  shows "\<not> Fin px < Fin cx - Fin 0.05" "\<not> Fin px > Fin cx + Fin 0.05"
  using assms by (auto simp: minus_fl_def)

text \<open>
  C9. The three candidate vectors hold indexes of board points and are pairwise
  disjoint, whatever the centroid. A point whose x offset or y offset from the centroid
  has magnitude at most 0.05 is in none of them.
\<close>

theorem corner_candidates_disjoint:
  assumes "corner_candidates centroid data = (a1, a8, h1)"
  shows "set a1 \<inter> set a8 = {} \<and> set a1 \<inter> set h1 = {} \<and> set a8 \<inter> set h1 = {} \<and>
         set a1 \<union> set a8 \<union> set h1 \<subseteq> {0..<length data} \<and>
         (\<forall>i px py cx cy.
            i < length data \<and> pt_x (data ! i) = Fin px \<and> pt_y (data ! i) = Fin py \<and>
            centroid = (Fin cx, Fin cy) \<and> (\<bar>px - cx\<bar> \<le> 0.05 \<or> \<bar>py - cy\<bar> \<le> 0.05)
            \<longrightarrow> i \<notin> set a1 \<union> set a8 \<union> set h1)"
proof -
  have a1: "a1 = filter (\<lambda>i. pt_x (data ! i) < fst centroid - Fin 0.05 \<and>
                        pt_y (data ! i) > snd centroid + Fin 0.05) [0..<length data]"
    and a8: "a8 = filter (\<lambda>i. \<not> (pt_x (data ! i) < fst centroid - Fin 0.05 \<and>
                           pt_y (data ! i) > snd centroid + Fin 0.05) \<and>
                        pt_x (data ! i) < fst centroid - Fin 0.05 \<and>
                        pt_y (data ! i) < snd centroid - Fin 0.05) [0..<length data]"
    and h1: "h1 = filter (\<lambda>i. \<not> (pt_x (data ! i) < fst centroid - Fin 0.05 \<and>
                           pt_y (data ! i) > snd centroid + Fin 0.05) \<and>
                        \<not> (pt_x (data ! i) < fst centroid - Fin 0.05 \<and>
                           pt_y (data ! i) < snd centroid - Fin 0.05) \<and>
                        pt_x (data ! i) > fst centroid + Fin 0.05 \<and>
                        pt_y (data ! i) > snd centroid + Fin 0.05) [0..<length data]"
    using assms by (simp_all add: corner_candidates_def fold_candidate_step)
  have disj: "set a1 \<inter> set a8 = {}" "set a1 \<inter> set h1 = {}" "set a8 \<inter> set h1 = {}"
    unfolding a1 a8 h1 by auto
  have sub: "set a1 \<union> set a8 \<union> set h1 \<subseteq> {0..<length data}"
    unfolding a1 a8 h1 by auto
  have margin: "i \<notin> set a1 \<union> set a8 \<union> set h1"
    if "pt_x (data ! i) = Fin px" "pt_y (data ! i) = Fin py" "centroid = (Fin cx, Fin cy)"
       "\<bar>px - cx\<bar> \<le> 0.05 \<or> \<bar>py - cy\<bar> \<le> 0.05" for i px py cx cy
    using that(4)
  proof
    assume "\<bar>px - cx\<bar> \<le> 0.05"
    from margin_x[OF this] show ?thesis unfolding a1 a8 h1 using that(1,3) by simp
  next
    assume "\<bar>py - cy\<bar> \<le> 0.05"
    from margin_x[OF this] show ?thesis unfolding a1 a8 h1 using that(2,3) by simp
  qed
  from disj sub margin show ?thesis by blast
qed

theorem corner_candidates_disjoint_witness:
  "corner_candidates (Fin 0, Fin 0)
     [\<lparr>pt_x = Fin (- 1), pt_y = Fin 1, pt_z = Fin 0\<rparr>, \<lparr>pt_x = Fin (- 1), pt_y = Fin (- 1), pt_z = Fin 0\<rparr>,
      \<lparr>pt_x = Fin 1, pt_y = Fin 1, pt_z = Fin 0\<rparr>, \<lparr>pt_x = Fin 0.05, pt_y = Fin 3, pt_z = Fin 0\<rparr>]
     = ([0], [1], [2]) \<and>
   set [0::nat] \<inter> set [1] = {} \<and> set [0::nat] \<inter> set [2] = {} \<and> set [1::nat] \<inter> set [2] = {} \<and>
   3 \<notin> set [0::nat] \<union> set [1] \<union> set [2]"
proof -
  have c: "corner_candidates (Fin 0, Fin 0)
     [\<lparr>pt_x = Fin (- 1), pt_y = Fin 1, pt_z = Fin 0\<rparr>, \<lparr>pt_x = Fin (- 1), pt_y = Fin (- 1), pt_z = Fin 0\<rparr>,
      \<lparr>pt_x = Fin 1, pt_y = Fin 1, pt_z = Fin 0\<rparr>, \<lparr>pt_x = Fin 0.05, pt_y = Fin 3, pt_z = Fin 0\<rparr>]
     = ([0], [1], [2])"
    by (simp add: corner_candidates_def candidate_step_def minus_fl_def)
  show ?thesis using c corner_candidates_disjoint[OF c] by simp
qed

section \<open>A frame without candidates\<close>

text \<open>
  C1, on the source. When one of the three candidate sets is empty, the callback still
  sends one transform: the inverse of the matrix that was declared without an
  initialiser. Nothing between the loops and \<^verbatim>\<open>br_.sendTransform\<close> looks at
  \<open>best_score\<close>.
\<close>

theorem cameraCallback_empty_candidates:
  assumes "split_lines lines = (h_indexes, v_indexes)"
    and "get_intersections cloud lines h_indexes v_indexes = data"
    and "corner_candidates (compute3DCentroid L data) data = (a1, a8, h1)"
    and "a1 = [] \<or> a8 = [] \<or> h1 = []"
  shows "cameraCallback L t0 cloud lines = [matrix_inverse L t0]"
  using assms(1,2,3) evaluate_candidates_empty[OF assms(4), of L data t0]
  by (simp add: cameraCallback_def)

text \<open>A frame in which no line was detected, on a cloud that holds one point everywhere.\<close>

theorem cameraCallback_empty_candidates_witness:
  "cameraCallback translation_pcl (Fin 7, Fin 9)
     (\<lambda>c r. \<lparr>pt_x = Fin 0, pt_y = Fin 0, pt_z = Fin 1\<rparr>) [] = [(Fin (- 7), Fin (- 9))]"
proof -
  have s: "split_lines [] = ([], [])"
    by (simp add: split_lines_def)
  have g: "get_intersections (\<lambda>c r. \<lparr>pt_x = Fin 0, pt_y = Fin 0, pt_z = Fin 1\<rparr>) [] [] [] = []"
    by (simp add: get_intersections_def)
  have c: "corner_candidates (compute3DCentroid translation_pcl []) [] = ([], [], [])"
    by (simp add: corner_candidates_def)
  show ?thesis
    using cameraCallback_empty_candidates[OF s g c, of "(Fin 7, Fin 9)"]
    by (simp add: translation_pcl_def)
qed


end
